theory Spec2Isabelle
  imports Main "HOL-Library.Word"
begin

section \<open>JavaScript strings\<close>

text \<open>
  A JavaScript string is a sequence of UTF-16 code units. Literals of the source are
  ASCII and are written through \<open>js\<close>.
\<close>

type_synonym code_unit = "16 word"
type_synonym jsstring = "code_unit list"

definition js :: "string \<Rightarrow> jsstring" where
  "js s = map of_char s"

text \<open>
  ECMAScript \<open>WhiteSpace\<close> (TAB, VT, FF, ZWNBSP and the space separators) and
  \<open>LineTerminator\<close> (LF, CR, LS, PS). \<open>String.prototype.trim\<close> strips both, and the
  regular expression class \<open>\s\<close> is their union.
\<close>

definition WhiteSpace :: "code_unit \<Rightarrow> bool" where
  "WhiteSpace c =
     (c = 0x0009 \<or> c = 0x000B \<or> c = 0x000C \<or> c = 0xFEFF \<or> c = 0x0020 \<or> c = 0x00A0
      \<or> c = 0x1680 \<or> (0x2000 \<le> c \<and> c \<le> 0x200A) \<or> c = 0x202F \<or> c = 0x205F
      \<or> c = 0x3000)"

definition LineTerminator :: "code_unit \<Rightarrow> bool" where
  "LineTerminator c = (c = 0x000A \<or> c = 0x000D \<or> c = 0x2028 \<or> c = 0x2029)"

definition is_space :: "code_unit \<Rightarrow> bool" where
  "is_space c = (WhiteSpace c \<or> LineTerminator c)"

definition trim :: "jsstring \<Rightarrow> jsstring" where
  "trim s = rev (dropWhile is_space (rev (dropWhile is_space s)))"

text \<open>Truthiness of a string value: every string but the empty one.\<close>

definition truthy :: "jsstring \<Rightarrow> bool" where
  "truthy s = (s \<noteq> [])"

section \<open>Regular expressions\<close>

text \<open>
  The regular expressions of \<open>cleanResponse\<close> use literal characters, character
  classes, sequencing, alternation, and the quantifiers \<open>?\<close>, \<open>*\<close>, \<open>+\<close> (greedy)
  and \<open>*?\<close> (lazy). They have no anchors, back references or look-around, so whether
  the pattern matches at a position depends on the text from that position on only.
\<close>

datatype 'a regex =
    Eps
  | Atom "'a \<Rightarrow> bool"
  | Cat "'a regex" "'a regex"
  | Or "'a regex" "'a regex"
  | Star "'a regex"
  | LazyStar "'a regex"

text \<open>
  Backtracking is made explicit: \<open>matches r s\<close> lists, in the order in which a
  backtracking matcher tries them, the remainders of \<open>s\<close> after each way of matching
  \<open>r\<close> at the start of \<open>s\<close>. The match the engine reports is the first one. A
  greedy star tries one more iteration before it tries to stop, a lazy star the other
  way round; an iteration that consumes nothing is rejected, as ECMAScript's
  \<open>RepeatMatcher\<close> does.
\<close>

fun star_greedy :: "('a list \<Rightarrow> 'a list list) \<Rightarrow> 'a list \<Rightarrow> 'a list list" where
  "star_greedy m s =
     concat (map (star_greedy m) (filter (\<lambda>t. length t < length s) (m s))) @ [s]"

fun star_lazy :: "('a list \<Rightarrow> 'a list list) \<Rightarrow> 'a list \<Rightarrow> 'a list list" where
  "star_lazy m s =
     s # concat (map (star_lazy m) (filter (\<lambda>t. length t < length s) (m s)))"

declare star_greedy.simps [simp del] star_lazy.simps [simp del]

primrec matches :: "'a regex \<Rightarrow> 'a list \<Rightarrow> 'a list list" where
  "matches Eps s = [s]"
| "matches (Atom P) s = (case s of [] \<Rightarrow> [] | c # cs \<Rightarrow> if P c then [cs] else [])"
| "matches (Cat r1 r2) s = concat (map (matches r2) (matches r1 s))"
| "matches (Or r1 r2) s = matches r1 s @ matches r2 s"
| "matches (Star r) s = star_greedy (matches r) s"
| "matches (LazyStar r) s = star_lazy (matches r) s"

definition Opt :: "'a regex \<Rightarrow> 'a regex" where
  "Opt r = Or r Eps"

definition Plus :: "'a regex \<Rightarrow> 'a regex" where
  "Plus r = Cat r (Star r)"

text \<open>An \<open>Alternative\<close> of the ECMAScript grammar is a sequence of terms.\<close>

definition Alternative :: "'a regex list \<Rightarrow> 'a regex" where
  "Alternative rs = foldr Cat rs Eps"

text \<open>
  \<open>String.prototype.replace\<close> with a global regular expression and a replacement
  string without \<open>$\<close>: the text is scanned from the left; at the first position where
  the pattern matches, the match is replaced and the scan goes on behind it. After an
  empty match the scan advances by one code unit.
\<close>

function replace_all :: "'a regex \<Rightarrow> 'a list \<Rightarrow> 'a list \<Rightarrow> 'a list" where
  "replace_all r rep [] = (case matches r [] of [] \<Rightarrow> [] | t # _ \<Rightarrow> rep)"
| "replace_all r rep (c # cs) =
     (case matches r (c # cs) of
        [] \<Rightarrow> c # replace_all r rep cs
      | t # _ \<Rightarrow>
          if length t < length (c # cs) then rep @ replace_all r rep t
          else rep @ c # replace_all r rep cs)"
  by pat_completeness auto
termination
  by (relation "measure (\<lambda>(r, rep, s). length s)") auto

text \<open>
  With the \<open>i\<close> flag two characters match when their canonical forms are equal. The
  patterns here consist of ASCII characters, and ECMAScript's \<open>Canonicalize\<close> (without
  the \<open>u\<close> flag) never maps a code unit above 127 to one below 128, so upper-casing
  the ASCII letters and leaving every other code unit alone gives the same comparisons.
\<close>

definition Canonicalize :: "code_unit \<Rightarrow> code_unit" where
  "Canonicalize c = (if 0x61 \<le> c \<and> c \<le> 0x7A then c - 0x20 else c)"

definition ci :: "char \<Rightarrow> code_unit \<Rightarrow> bool" where
  "ci p c = (Canonicalize c = Canonicalize (of_char p))"

definition lit_ci :: "string \<Rightarrow> code_unit regex" where
  "lit_ci s = Alternative (map (\<lambda>p. Atom (ci p)) s)"

section \<open>AdditionalInfo: cleanResponse\<close>

text \<open>\<^verbatim>\<open>/<search_rag>[\s\S]*?<\/search_rag>/gi\<close>\<close>

definition re_search_rag :: "code_unit regex" where
  "re_search_rag =
     Alternative [lit_ci ''<search_rag>'',
       LazyStar (Atom (\<lambda>c. is_space c \<or> \<not> is_space c)),
       lit_ci ''</search_rag>'']"

text \<open>\<^verbatim>\<open>/<duckduckgo_search>[\s\S]*?<\/duckduckgo_search>/gi\<close>\<close>

definition re_duckduckgo_search :: "code_unit regex" where
  "re_duckduckgo_search =
     Alternative [lit_ci ''<duckduckgo_search>'',
       LazyStar (Atom (\<lambda>c. is_space c \<or> \<not> is_space c)),
       lit_ci ''</duckduckgo_search>'']"

text \<open>\<^verbatim>\<open>/<\/?(search_rag|duckduckgo_search)[^>]*>/gi\<close>\<close>

definition re_standalone :: "code_unit regex" where
  "re_standalone =
     Alternative [Atom (ci CHR ''<''), Opt (Atom (ci CHR ''/'')),
       Or (lit_ci ''search_rag'') (lit_ci ''duckduckgo_search''),
       Star (Atom (\<lambda>c. \<not> ci CHR ''>'' c)), Atom (ci CHR ''>'')]"

text \<open>\<^verbatim>\<open>/\n\s*\n\s*\n+/g\<close>\<close>

definition re_blank_lines :: "code_unit regex" where
  "re_blank_lines =
     Alternative [Atom (\<lambda>c. c = 0x0A), Star (Atom is_space), Atom (\<lambda>c. c = 0x0A),
       Star (Atom is_space), Plus (Atom (\<lambda>c. c = 0x0A))]"

definition cleanResponse :: "jsstring \<Rightarrow> jsstring" where
  "cleanResponse text =
     (if \<not> truthy text then text
      else
        let cleaned = replace_all re_search_rag (js '''') text;
            cleaned = replace_all re_duckduckgo_search (js '''') cleaned;
            cleaned = replace_all re_standalone (js '''') cleaned;
            cleaned = replace_all re_blank_lines (js ''\<newline>\<newline>'') cleaned
        in trim cleaned)"

section \<open>Values exchanged with the API service\<close>

text \<open>
  The module \<open>../services/api\<close> is not among the sources; its three operations are
  parameters of the handlers below. An optional field is an \<open>option\<close>: \<open>None\<close>
  stands for a property that is absent, \<open>undefined\<close> or \<open>null\<close>.
\<close>

record gather_request =
  gr_query :: jsstring

record gather_response =
  gi_success :: "bool option"
  gi_query :: "jsstring option"
  gi_info :: "jsstring option"
  gi_message :: "jsstring option"

text \<open>
  The payload \<open>{content, user_query: userQuery || undefined}\<close>. The object owns the
  key \<open>user_query\<close> in either case; \<open>user_query = None\<close> is the value \<open>undefined\<close>.
\<close>

record final_request =
  content :: jsstring
  user_query :: "jsstring option"

record final_response =
  fin_success :: "bool option"
  fin_response :: "jsstring option"
  fin_message :: "jsstring option"

record health_data =
  hd_status :: jsstring
  hd_message :: jsstring
  hd_version :: jsstring

text \<open>
  The value a failed request is rejected with: \<open>err.response\<close> (with its \<open>data\<close>,
  \<open>status\<close> and \<open>statusText\<close>), whether \<open>err.request\<close> is set, and \<open>err.message\<close>.
\<close>

record error_body =
  body_detail :: "jsstring option"
  body_message :: "jsstring option"

record error_response =
  response_data :: "error_body option"
  response_status :: nat
  response_statusText :: jsstring

record thrown_error =
  err_response :: "error_response option"
  err_request :: bool
  err_message :: "jsstring option"

text \<open>
  How an awaited call settles. \<open>Rejected None\<close> is a rejection with \<open>null\<close> or
  \<open>undefined\<close>, on which every property access throws a \<open>TypeError\<close>.
\<close>

datatype 'a settled = Resolved 'a | Rejected "thrown_error option"

datatype js_exception = TypeError

text \<open>\<open>a || b\<close> on values that are a string or absent, and \<open>a || 'literal'\<close>.\<close>

definition js_or :: "jsstring option \<Rightarrow> jsstring option \<Rightarrow> jsstring option" where
  "js_or a b = (case a of None \<Rightarrow> b | Some s \<Rightarrow> if truthy s then Some s else b)"

definition or_default :: "jsstring option \<Rightarrow> jsstring \<Rightarrow> jsstring" where
  "or_default a d = (case a of None \<Rightarrow> d | Some s \<Rightarrow> if truthy s then s else d)"

text \<open>\<open>err.response?.data?.detail\<close> and \<open>data?.message\<close>.\<close>

definition data_detail :: "error_response \<Rightarrow> jsstring option" where
  "data_detail r = (case response_data r of None \<Rightarrow> None | Some b \<Rightarrow> body_detail b)"

definition data_message :: "error_response \<Rightarrow> jsstring option" where
  "data_message r = (case response_data r of None \<Rightarrow> None | Some b \<Rightarrow> body_message b)"

definition response_detail :: "thrown_error \<Rightarrow> jsstring option" where
  "response_detail err = (case err_response err of None \<Rightarrow> None | Some r \<Rightarrow> data_detail r)"

text \<open>The decimal digits of a status code, as a template literal prints a number.\<close>

fun decimal :: "nat \<Rightarrow> jsstring" where
  "decimal n =
     (if n < 10 then [of_nat (48 + n)] else decimal (n div 10) @ [of_nat (48 + n mod 10)])"

declare decimal.simps [simp del]

section \<open>AdditionalInfo\<close>

text \<open>
  The state variables of the three components that call the API have the same names
  (\<open>result\<close>, \<open>loading\<close>, \<open>error\<close>); the fields carry the initials of the component.
\<close>

record AdditionalInfo_state =
  ai_query :: jsstring
  ai_result :: "gather_response option"
  ai_loading :: bool
  ai_error :: "jsstring option"

text \<open>
  \<open>handleSubmit\<close> up to the \<open>await\<close>: the validation, the three resets, and the
  request handed to \<open>apiService.gatherAdditionalInfo\<close> (\<open>None\<close> when the handler
  returns before it calls the service).
\<close>

definition AdditionalInfo_submit ::
  "AdditionalInfo_state \<Rightarrow> AdditionalInfo_state \<times> gather_request option" where
  "AdditionalInfo_submit st =
     (if \<not> truthy (trim (ai_query st))
      then (st\<lparr>ai_error := Some (js ''Please enter a query'')\<rparr>, None)
      else (st\<lparr>ai_loading := True, ai_error := None, ai_result := None\<rparr>,
            Some \<lparr>gr_query = ai_query st\<rparr>))"

text \<open>The \<open>try\<close> block once the call has settled; \<open>Inl\<close> is the value thrown.\<close>

definition AdditionalInfo_try ::
  "AdditionalInfo_state \<Rightarrow> gather_response option settled \<Rightarrow>
   thrown_error option + AdditionalInfo_state" where
  "AdditionalInfo_try st outcome =
     (case outcome of
        Rejected err \<Rightarrow> Inl err
      | Resolved data \<Rightarrow>
          (case data of
             None \<Rightarrow>
               Inr (st\<lparr>ai_error :=
                 Some (js ''Received empty response from server. Please try again.'')\<rparr>)
           | Some d \<Rightarrow>
               (case gi_info d of
                  None \<Rightarrow>
                    Inr (st\<lparr>ai_error :=
                      Some (js ''Received empty response from server. Please try again.'')\<rparr>)
                | Some info \<Rightarrow>
                    if truthy info
                    then Inr (st\<lparr>ai_result := Some (d\<lparr>gi_info := Some (cleanResponse info)\<rparr>)\<rparr>)
                    else
                      Inr (st\<lparr>ai_error :=
                        Some (js ''Received empty response from server. Please try again.'')\<rparr>))))"

definition AdditionalInfo_errorMessage :: "thrown_error \<Rightarrow> jsstring" where
  "AdditionalInfo_errorMessage err =
     (case err_response err of
        Some r \<Rightarrow>
          or_default (js_or (data_detail r) (data_message r))
            (js ''Server error: '' @ decimal (response_status r) @ js '' ''
               @ response_statusText r)
      | None \<Rightarrow>
          if err_request err
          then js ''No response from server. Please check if the API server is running.''
          else or_default (err_message err) (js ''Failed to gather information''))"

definition AdditionalInfo_catch ::
  "AdditionalInfo_state \<Rightarrow> thrown_error option \<Rightarrow> js_exception + AdditionalInfo_state" where
  "AdditionalInfo_catch st e =
     (case e of
        None \<Rightarrow> Inl TypeError
      | Some err \<Rightarrow> Inr (st\<lparr>ai_error := Some (AdditionalInfo_errorMessage err)\<rparr>))"

definition AdditionalInfo_finally :: "AdditionalInfo_state \<Rightarrow> AdditionalInfo_state" where
  "AdditionalInfo_finally st = st\<lparr>ai_loading := False\<rparr>"

text \<open>
  \<open>try\<close>/\<open>catch\<close>/\<open>finally\<close>: the result is the state and the exception that leaves
  the handler, if any.
\<close>

definition AdditionalInfo_settle ::
  "AdditionalInfo_state \<Rightarrow> gather_response option settled \<Rightarrow>
   AdditionalInfo_state \<times> js_exception option" where
  "AdditionalInfo_settle st outcome =
     (case AdditionalInfo_try st outcome of
        Inr st1 \<Rightarrow> (AdditionalInfo_finally st1, None)
      | Inl e \<Rightarrow>
          (case AdditionalInfo_catch st e of
             Inr st2 \<Rightarrow> (AdditionalInfo_finally st2, None)
           | Inl x \<Rightarrow> (AdditionalInfo_finally st, Some x)))"

definition AdditionalInfo_handleSubmit ::
  "(gather_request \<Rightarrow> gather_response option settled) \<Rightarrow> AdditionalInfo_state \<Rightarrow>
   AdditionalInfo_state \<times> js_exception option" where
  "AdditionalInfo_handleSubmit gatherAdditionalInfo st =
     (case AdditionalInfo_submit st of
        (st1, None) \<Rightarrow> (st1, None)
      | (st1, Some req) \<Rightarrow> AdditionalInfo_settle st1 (gatherAdditionalInfo req))"

section \<open>FinalResponse\<close>

record FinalResponse_state =
  fr_content :: jsstring
  fr_userQuery :: jsstring
  fr_result :: "final_response option"
  fr_loading :: bool
  fr_error :: "jsstring option"

definition FinalResponse_submit ::
  "FinalResponse_state \<Rightarrow> FinalResponse_state \<times> final_request option" where
  "FinalResponse_submit st =
     (if \<not> truthy (trim (fr_content st))
      then (st\<lparr>fr_error := Some (js ''Please enter content to synthesize'')\<rparr>, None)
      else (st\<lparr>fr_loading := True, fr_error := None, fr_result := None\<rparr>,
            Some \<lparr>content = fr_content st,
                  user_query = (if truthy (fr_userQuery st) then Some (fr_userQuery st)
                                else None)\<rparr>))"

definition FinalResponse_try ::
  "FinalResponse_state \<Rightarrow> final_response option settled \<Rightarrow>
   thrown_error option + FinalResponse_state" where
  "FinalResponse_try st outcome =
     (case outcome of
        Rejected err \<Rightarrow> Inl err
      | Resolved data \<Rightarrow> Inr (st\<lparr>fr_result := data\<rparr>))"

definition FinalResponse_errorMessage :: "thrown_error \<Rightarrow> jsstring" where
  "FinalResponse_errorMessage err =
     or_default (js_or (response_detail err) (err_message err))
       (js ''Failed to generate response'')"

definition FinalResponse_catch ::
  "FinalResponse_state \<Rightarrow> thrown_error option \<Rightarrow> js_exception + FinalResponse_state" where
  "FinalResponse_catch st e =
     (case e of
        None \<Rightarrow> Inl TypeError
      | Some err \<Rightarrow> Inr (st\<lparr>fr_error := Some (FinalResponse_errorMessage err)\<rparr>))"

definition FinalResponse_finally :: "FinalResponse_state \<Rightarrow> FinalResponse_state" where
  "FinalResponse_finally st = st\<lparr>fr_loading := False\<rparr>"

definition FinalResponse_settle ::
  "FinalResponse_state \<Rightarrow> final_response option settled \<Rightarrow>
   FinalResponse_state \<times> js_exception option" where
  "FinalResponse_settle st outcome =
     (case FinalResponse_try st outcome of
        Inr st1 \<Rightarrow> (FinalResponse_finally st1, None)
      | Inl e \<Rightarrow>
          (case FinalResponse_catch st e of
             Inr st2 \<Rightarrow> (FinalResponse_finally st2, None)
           | Inl x \<Rightarrow> (FinalResponse_finally st, Some x)))"

definition FinalResponse_handleSubmit ::
  "(final_request \<Rightarrow> final_response option settled) \<Rightarrow> FinalResponse_state \<Rightarrow>
   FinalResponse_state \<times> js_exception option" where
  "FinalResponse_handleSubmit generateFinalResponse st =
     (case FinalResponse_submit st of
        (st1, None) \<Rightarrow> (st1, None)
      | (st1, Some req) \<Rightarrow> FinalResponse_settle st1 (generateFinalResponse req))"

section \<open>HealthCheck\<close>

record HealthCheck_state =
  hc_health :: "health_data option"
  hc_loading :: bool
  hc_error :: "jsstring option"

text \<open>\<open>checkHealth\<close> up to the \<open>await\<close>, and after it.\<close>

definition checkHealth_begin :: "HealthCheck_state \<Rightarrow> HealthCheck_state" where
  "checkHealth_begin st = st\<lparr>hc_loading := True, hc_error := None\<rparr>"

definition checkHealth_try ::
  "HealthCheck_state \<Rightarrow> health_data option settled \<Rightarrow>
   thrown_error option + HealthCheck_state" where
  "checkHealth_try st outcome =
     (case outcome of
        Rejected err \<Rightarrow> Inl err
      | Resolved data \<Rightarrow> Inr (st\<lparr>hc_health := data\<rparr>))"

definition checkHealth_errorMessage :: "thrown_error \<Rightarrow> jsstring" where
  "checkHealth_errorMessage err =
     or_default (js_or (response_detail err) (err_message err))
       (js ''Failed to check health'')"

definition checkHealth_catch ::
  "HealthCheck_state \<Rightarrow> thrown_error option \<Rightarrow> js_exception + HealthCheck_state" where
  "checkHealth_catch st e =
     (case e of
        None \<Rightarrow> Inl TypeError
      | Some err \<Rightarrow> Inr (st\<lparr>hc_error := Some (checkHealth_errorMessage err)\<rparr>))"

definition checkHealth_finally :: "HealthCheck_state \<Rightarrow> HealthCheck_state" where
  "checkHealth_finally st = st\<lparr>hc_loading := False\<rparr>"

definition checkHealth_settle ::
  "HealthCheck_state \<Rightarrow> health_data option settled \<Rightarrow>
   HealthCheck_state \<times> js_exception option" where
  "checkHealth_settle st outcome =
     (case checkHealth_try st outcome of
        Inr st1 \<Rightarrow> (checkHealth_finally st1, None)
      | Inl e \<Rightarrow>
          (case checkHealth_catch st e of
             Inr st2 \<Rightarrow> (checkHealth_finally st2, None)
           | Inl x \<Rightarrow> (checkHealth_finally st, Some x)))"

definition checkHealth ::
  "health_data option settled \<Rightarrow> HealthCheck_state \<Rightarrow>
   HealthCheck_state \<times> js_exception option" where
  "checkHealth outcome st = checkHealth_settle (checkHealth_begin st) outcome"

section \<open>Request lifecycle of the components\<close>

text \<open>
  The four lifecycle states of the spec, read off the three state variables:
  \<open>lifecycle_of loading has_result has_error\<close> is \<open>None\<close> when the variables are
  in none of the four states.
\<close>

datatype lifecycle = Idle | Loading | Success | Failure

definition lifecycle_of :: "bool \<Rightarrow> bool \<Rightarrow> bool \<Rightarrow> lifecycle option" where
  "lifecycle_of loading has_result has_error =
     (if loading then (if has_result \<or> has_error then None else Some Loading)
      else if has_result then (if has_error then None else Some Success)
      else if has_error then Some Failure
      else Some Idle)"

text \<open>
  A component together with the number of its requests that have not settled yet. The
  events are those the rendered controls can deliver: the query input is rendered with
  \<open>disabled={loading}\<close> and the submit button with
  \<open>disabled={loading || !query.trim()}\<close>; a form whose submit button is disabled is not
  submitted. A request can settle only while one is pending. The state updates a handler
  makes without an \<open>await\<close> in between are applied together (React batches them),
  so the part of a handler before the \<open>await\<close> is one step and the part after it
  another.
\<close>

datatype AdditionalInfo_event =
    AI_Change jsstring
  | AI_Submit
  | AI_Settle "gather_response option settled"

definition AdditionalInfo_step ::
  "AdditionalInfo_state \<times> nat \<Rightarrow> AdditionalInfo_event \<Rightarrow> AdditionalInfo_state \<times> nat" where
  "AdditionalInfo_step sys ev =
     (case sys of (st, pending) \<Rightarrow>
        (case ev of
           AI_Change v \<Rightarrow> if ai_loading st then (st, pending) else (st\<lparr>ai_query := v\<rparr>, pending)
         | AI_Submit \<Rightarrow>
             if ai_loading st \<or> \<not> truthy (trim (ai_query st)) then (st, pending)
             else (case AdditionalInfo_submit st of
                     (st1, None) \<Rightarrow> (st1, pending)
                   | (st1, Some req) \<Rightarrow> (st1, Suc pending))
         | AI_Settle outcome \<Rightarrow>
             if pending = 0 then (st, pending)
             else (fst (AdditionalInfo_settle st outcome), pending - 1)))"

definition AdditionalInfo_init :: AdditionalInfo_state where
  "AdditionalInfo_init =
     \<lparr>ai_query = js '''', ai_result = None, ai_loading = False, ai_error = None\<rparr>"

definition AdditionalInfo_run :: "AdditionalInfo_event list \<Rightarrow> AdditionalInfo_state \<times> nat" where
  "AdditionalInfo_run evs = foldl AdditionalInfo_step (AdditionalInfo_init, 0) evs"

text \<open>
  FinalResponse renders both fields with \<open>disabled={loading}\<close> and the submit button
  with \<open>disabled={loading || !content.trim()}\<close>.
\<close>

datatype FinalResponse_event =
    FR_ChangeContent jsstring
  | FR_ChangeUserQuery jsstring
  | FR_Submit
  | FR_Settle "final_response option settled"

definition FinalResponse_step ::
  "FinalResponse_state \<times> nat \<Rightarrow> FinalResponse_event \<Rightarrow> FinalResponse_state \<times> nat" where
  "FinalResponse_step sys ev =
     (case sys of (st, pending) \<Rightarrow>
        (case ev of
           FR_ChangeContent v \<Rightarrow>
             if fr_loading st then (st, pending) else (st\<lparr>fr_content := v\<rparr>, pending)
         | FR_ChangeUserQuery v \<Rightarrow>
             if fr_loading st then (st, pending) else (st\<lparr>fr_userQuery := v\<rparr>, pending)
         | FR_Submit \<Rightarrow>
             if fr_loading st \<or> \<not> truthy (trim (fr_content st)) then (st, pending)
             else (case FinalResponse_submit st of
                     (st1, None) \<Rightarrow> (st1, pending)
                   | (st1, Some req) \<Rightarrow> (st1, Suc pending))
         | FR_Settle outcome \<Rightarrow>
             if pending = 0 then (st, pending)
             else (fst (FinalResponse_settle st outcome), pending - 1)))"

definition FinalResponse_init :: FinalResponse_state where
  "FinalResponse_init =
     \<lparr>fr_content = js '''', fr_userQuery = js '''', fr_result = None, fr_loading = False,
      fr_error = None\<rparr>"

definition FinalResponse_run :: "FinalResponse_event list \<Rightarrow> FinalResponse_state \<times> nat" where
  "FinalResponse_run evs = foldl FinalResponse_step (FinalResponse_init, 0) evs"

text \<open>
  HealthCheck calls \<open>checkHealth\<close> once from its mount effect, so the component starts
  with that request pending; the refresh button is rendered with \<open>disabled={loading}\<close>.
\<close>

datatype HealthCheck_event =
    HC_Refresh
  | HC_Settle "health_data option settled"

definition HealthCheck_step ::
  "HealthCheck_state \<times> nat \<Rightarrow> HealthCheck_event \<Rightarrow> HealthCheck_state \<times> nat" where
  "HealthCheck_step sys ev =
     (case sys of (st, pending) \<Rightarrow>
        (case ev of
           HC_Refresh \<Rightarrow>
             if hc_loading st then (st, pending) else (checkHealth_begin st, Suc pending)
         | HC_Settle outcome \<Rightarrow>
             if pending = 0 then (st, pending)
             else (fst (checkHealth_settle st outcome), pending - 1)))"

definition HealthCheck_init :: HealthCheck_state where
  "HealthCheck_init = \<lparr>hc_health = None, hc_loading = False, hc_error = None\<rparr>"

definition HealthCheck_run :: "HealthCheck_event list \<Rightarrow> HealthCheck_state \<times> nat" where
  "HealthCheck_run evs = foldl HealthCheck_step (checkHealth_begin HealthCheck_init, 1) evs"

section \<open>ChatInput\<close>

text \<open>
  The component state is the \<open>message\<close> text; the props are the \<open>onSendMessage\<close>
  callback and the \<open>disabled\<close> flag. A handler returns the new state together with
  the arguments of the \<open>onSendMessage\<close> calls it made, in order.
\<close>

record ChatInput_state =
  message :: jsstring

definition ChatInput_handleSubmit :: "ChatInput_state \<Rightarrow> ChatInput_state \<times> jsstring list" where
  "ChatInput_handleSubmit st =
     (if truthy (trim (message st))
      then (st\<lparr>message := js ''''\<rparr>, [trim (message st)])
      else (st, []))"

definition ChatInput_handleKeyDown ::
  "ChatInput_state \<Rightarrow> jsstring \<Rightarrow> bool \<Rightarrow> ChatInput_state \<times> jsstring list" where
  "ChatInput_handleKeyDown st key shiftKey =
     (if key = js ''Enter'' \<and> \<not> shiftKey then ChatInput_handleSubmit st else (st, []))"

text \<open>The \<open>disabled\<close> attributes the component renders on its two controls.\<close>

definition Textarea_disabled :: "bool \<Rightarrow> ChatInput_state \<Rightarrow> bool" where
  "Textarea_disabled disabled st = disabled"

definition Button_disabled :: "bool \<Rightarrow> ChatInput_state \<Rightarrow> bool" where
  "Button_disabled disabled st = (\<not> truthy (trim (message st)) \<or> disabled)"

datatype ChatInput_event =
    Click
  | KeyDown jsstring bool
  | Change jsstring

text \<open>
  Modelled from the spec: the \<open>Button\<close> and \<open>Textarea\<close> components
  (\<open>@/components/ui/button\<close>, \<open>@/components/ui/textarea\<close>) are not among the sources.
  The spec says "While disabled, input and submit control are inert": a disabled control
  hands no event to its handlers. An enabled submit button submits the form
  (\<open>onSubmit\<close>), an enabled text area hands key presses to \<open>onKeyDown\<close> and edits to
  \<open>onChange\<close>.
\<close>

definition ChatInput_dispatch ::
  "bool \<Rightarrow> ChatInput_state \<Rightarrow> ChatInput_event \<Rightarrow> ChatInput_state \<times> jsstring list" where
  "ChatInput_dispatch disabled st ev =
     (case ev of
        Click \<Rightarrow> if Button_disabled disabled st then (st, []) else ChatInput_handleSubmit st
      | KeyDown key shiftKey \<Rightarrow>
          if Textarea_disabled disabled st then (st, [])
          else ChatInput_handleKeyDown st key shiftKey
      | Change v \<Rightarrow>
          if Textarea_disabled disabled st then (st, []) else (st\<lparr>message := v\<rparr>, []))"

section \<open>The sanitization pass as the specification words it\<close>

text \<open>
  A second definition of the sanitization pass, by direct recursion on the text and
  without regular expressions, to compare \<open>cleanResponse\<close> with. Each \<open>_at\<close> function
  says whether the text begins with the thing to be removed and, if so, returns the
  text behind it.
\<close>

fun starts_with_ci :: "string \<Rightarrow> jsstring \<Rightarrow> bool" where
  "starts_with_ci [] s = True"
| "starts_with_ci (p # ps) [] = False"
| "starts_with_ci (p # ps) (c # cs) = (ci p c \<and> starts_with_ci ps cs)"

text \<open>The text behind the first occurrence of \<open>w\<close>, in any letter case.\<close>

fun after_first_ci :: "string \<Rightarrow> jsstring \<Rightarrow> jsstring option" where
  "after_first_ci w [] = (if starts_with_ci w [] then Some [] else None)"
| "after_first_ci w (c # cs) =
     (if starts_with_ci w (c # cs) then Some (drop (length w) (c # cs))
      else after_first_ci w cs)"

text \<open>
  A paired tag: the opening tag \<open><name>\<close>, then anything (newlines included) up to
  the nearest closing tag \<open></name>\<close>.
\<close>

definition paired_tag_at :: "string \<Rightarrow> jsstring \<Rightarrow> jsstring option" where
  "paired_tag_at name s =
     (if starts_with_ci (''<'' @ name @ ''>'') s
      then after_first_ci (''</'' @ name @ ''>'') (drop (length name + 2) s)
      else None)"

text \<open>The text behind the next \<open>>\<close>.\<close>

definition after_gt :: "jsstring \<Rightarrow> jsstring option" where
  "after_gt s = (case dropWhile (\<lambda>c. c \<noteq> 0x3E) s of [] \<Rightarrow> None | c # r \<Rightarrow> Some r)"

text \<open>One of the two tag names, then attributes (anything but \<open>>\<close>), then \<open>>\<close>.\<close>

definition tag_rest :: "jsstring \<Rightarrow> jsstring option" where
  "tag_rest r =
     (if starts_with_ci ''search_rag'' r then after_gt (drop (length ''search_rag'') r)
      else if starts_with_ci ''duckduckgo_search'' r
      then after_gt (drop (length ''duckduckgo_search'') r)
      else None)"

text \<open>A standalone opening tag \<open><name ...>\<close> or closing tag \<open></name ...>\<close>.\<close>

definition standalone_tag_at :: "jsstring \<Rightarrow> jsstring option" where
  "standalone_tag_at s =
     (case s of
        [] \<Rightarrow> None
      | c # cs \<Rightarrow>
          if c \<noteq> 0x3C then None
          else (case cs of
                  [] \<Rightarrow> None
                | d # ds \<Rightarrow> if d = 0x2F then tag_rest ds else tag_rest cs))"

text \<open>
  A run of blank lines: a newline whose following white space holds at least two more
  newlines. The run ends with the last newline of that white space.
\<close>

definition after_last_LF :: "jsstring \<Rightarrow> jsstring" where
  "after_last_LF w = rev (takeWhile (\<lambda>c. c \<noteq> 0x0A) (rev w))"

definition blank_run_at :: "jsstring \<Rightarrow> jsstring option" where
  "blank_run_at s =
     (case s of
        [] \<Rightarrow> None
      | c # cs \<Rightarrow>
          if c = 0x0A \<and> 2 \<le> count_list (takeWhile is_space cs) 0x0A
          then Some (after_last_LF (takeWhile is_space cs) @ dropWhile is_space cs)
          else None)"

text \<open>
  Replace, from left to right, each occurrence that \<open>at\<close> finds by \<open>rep\<close>. (An
  occurrence is never empty; the length test only makes the recursion well-founded.)
\<close>

function replace_each :: "('a list \<Rightarrow> 'a list option) \<Rightarrow> 'a list \<Rightarrow> 'a list \<Rightarrow> 'a list" where
  "replace_each at rep [] = []"
| "replace_each at rep (c # cs) =
     (case at (c # cs) of
        None \<Rightarrow> c # replace_each at rep cs
      | Some t \<Rightarrow>
          if length t \<le> length cs then rep @ replace_each at rep t
          else c # replace_each at rep cs)"
  by pat_completeness auto
termination
  by (relation "measure (\<lambda>(at, rep, s). length s)") auto

definition sanitize :: "jsstring \<Rightarrow> jsstring" where
  "sanitize text =
     trim (replace_each blank_run_at (js ''\<newline>\<newline>'')
       (replace_each standalone_tag_at (js '''')
         (replace_each (paired_tag_at ''duckduckgo_search'') (js '''')
           (replace_each (paired_tag_at ''search_rag'') (js '''') text))))"

text \<open>
  Tag markup: a position of the text at which the pattern of a standalone tag (the
  third regular expression of \<open>cleanResponse\<close>) matches. Every paired tag begins with
  one.
\<close>

fun has_tag_markup :: "jsstring \<Rightarrow> bool" where
  "has_tag_markup [] = False"
| "has_tag_markup (c # cs) = (matches re_standalone (c # cs) \<noteq> [] \<or> has_tag_markup cs)"

text \<open>The first element of a list, if any.\<close>

definition first :: "'a list \<Rightarrow> 'a option" where
  "first xs = (case xs of [] \<Rightarrow> None | x # _ \<Rightarrow> Some x)"

text \<open>
  Auxiliary notions of the proofs: the part of the standalone-tag pattern behind the
  optional slash, the last two terms of the blank-line pattern, the number of newlines
  in the white space a text begins with, and whether a text holds three consecutive
  newlines.
\<close>

definition tag_tail :: "jsstring \<Rightarrow> jsstring list" where
  "tag_tail r =
     matches (Alternative [Or (lit_ci ''search_rag'') (lit_ci ''duckduckgo_search''),
       Star (Atom (\<lambda>c. \<not> ci CHR ''>'' c)), Atom (ci CHR ''>'')]) r"

definition blank_tail :: "code_unit regex list" where
  "blank_tail = [Star (Atom is_space), Plus (Atom (\<lambda>c. c = 0x0A))]"

definition lead_LF :: "jsstring \<Rightarrow> nat" where
  "lead_LF s = count_list (takeWhile is_space s) 0x0A"

fun has_triple_LF :: "jsstring \<Rightarrow> bool" where
  "has_triple_LF [] = False"
| "has_triple_LF (c # cs) = ((c = 0x0A \<and> take 2 cs = [0x0A, 0x0A]) \<or> has_triple_LF cs)"

section \<open>The request body of FinalResponse\<close>

text \<open>
  Modelled from the spec: \<open>apiService.generateFinalResponse\<close> (module
  \<open>../services/api\<close>) is not among the sources. The spec gives the request as
  "{content, user_query?}" and says that the original query is "omitted from the
  request entirely when blank rather than sent as an empty string". The body that goes
  out therefore holds, in the payload's order, the properties of the payload whose value
  is not \<open>undefined\<close>; \<open>final_request_body\<close> lists them as pairs of key and value.
\<close>

type_synonym request_body = "(string \<times> jsstring) list"

definition final_request_body :: "final_request \<Rightarrow> request_body" where
  "final_request_body req =
     (''content'', content req)
     # (case user_query req of None \<Rightarrow> [] | Some q \<Rightarrow> [(''user_query'', q)])"

text \<open>
  Modelled from the spec: the operation sends that body and settles as the transport
  does; the transport \<open>post\<close> is a parameter.
\<close>

definition apiService_generateFinalResponse ::
  "(request_body \<Rightarrow> final_response option settled) \<Rightarrow> final_request \<Rightarrow>
   final_response option settled" where
  "apiService_generateFinalResponse post req = post (final_request_body req)"

text \<open>
  A sample transport: it answers with the \<open>user_query\<close> it found in the body, if any,
  and with the keys of the body.
\<close>

definition echo :: "request_body \<Rightarrow> final_response option settled" where
  "echo body =
     Resolved (Some \<lparr>fin_success = Some True, fin_response = map_of body ''user_query'',
       fin_message = Some (js (concat (map (\<lambda>p. fst p @ '';'') body)))\<rparr>)"

section \<open>Invariants and sample values\<close>

text \<open>A value that \<open>||\<close> skips: absent, or the empty string.\<close>

definition falsy :: "jsstring option \<Rightarrow> bool" where
  "falsy a = (a = None \<or> a = Some [])"

text \<open>
  What holds of a component and its pending requests in every reachable state: a request
  is pending exactly while \<open>loading\<close> is set, and never more than one. For the two
  forms the state variables are in one of the four lifecycle states; for HealthCheck
  \<open>loading\<close> and \<open>error\<close> exclude each other.
\<close>

definition AdditionalInfo_inv :: "AdditionalInfo_state \<times> nat \<Rightarrow> bool" where
  "AdditionalInfo_inv sys =
     (case sys of (st, pending) \<Rightarrow>
        pending = (if ai_loading st then 1 else 0)
        \<and> lifecycle_of (ai_loading st) (ai_result st \<noteq> None) (ai_error st \<noteq> None) \<noteq> None)"

definition FinalResponse_inv :: "FinalResponse_state \<times> nat \<Rightarrow> bool" where
  "FinalResponse_inv sys =
     (case sys of (st, pending) \<Rightarrow>
        pending = (if fr_loading st then 1 else 0)
        \<and> lifecycle_of (fr_loading st) (fr_result st \<noteq> None) (fr_error st \<noteq> None) \<noteq> None)"

definition HealthCheck_inv :: "HealthCheck_state \<times> nat \<Rightarrow> bool" where
  "HealthCheck_inv sys =
     (case sys of (st, pending) \<Rightarrow>
        pending = (if hc_loading st then 1 else 0)
        \<and> \<not> (hc_loading st \<and> hc_error st \<noteq> None))"

text \<open>
  A network failure (the request was made, no response arrived) and a server error
  without a structured body, as an HTTP client library reports them.
\<close>

definition network_error :: thrown_error where
  "network_error =
     \<lparr>err_response = None, err_request = True, err_message = Some (js ''Network Error'')\<rparr>"

definition unavailable :: error_response where
  "unavailable =
     \<lparr>response_data = Some \<lparr>body_detail = None, body_message = None\<rparr>,
      response_status = 503, response_statusText = js ''Service Unavailable''\<rparr>"

definition unavailable_error :: thrown_error where
  "unavailable_error =
     \<lparr>err_response = Some unavailable, err_request = True,
      err_message = Some (js ''Request failed with status code 503'')\<rparr>"

definition healthy :: health_data where
  "healthy = \<lparr>hd_status = js ''healthy'', hd_message = js ''ok'', hd_version = js ''1.0.0''\<rparr>"

definition empty_info :: gather_response where
  "empty_info =
     \<lparr>gi_success = Some True, gi_query = Some (js ''q''), gi_info = Some (js ''''),
      gi_message = None\<rparr>"

definition zoo_info :: gather_response where
  "zoo_info =
     \<lparr>gi_success = Some True, gi_query = Some (js ''zoo''), gi_info = Some (js ''Open daily.''),
      gi_message = None\<rparr>"

definition AdditionalInfo_loading :: AdditionalInfo_state where
  "AdditionalInfo_loading =
     \<lparr>ai_query = js ''q'', ai_result = None, ai_loading = True, ai_error = None\<rparr>"

definition AdditionalInfo_padded :: AdditionalInfo_state where
  "AdditionalInfo_padded =
     \<lparr>ai_query = js ''  zoo  '', ai_result = None, ai_loading = False, ai_error = None\<rparr>"

definition FinalResponse_padded :: FinalResponse_state where
  "FinalResponse_padded =
     \<lparr>fr_content = js '' notes '', fr_userQuery = js '''', fr_result = None,
      fr_loading = False, fr_error = None\<rparr>"

section \<open>Facts about the regular expression engine\<close>

lemma first_simps [simp]: "first [] = None" "first (x # xs) = Some x"
  by (simp_all add: first_def)

lemma first_append: "first (xs @ ys) = (case first xs of Some x \<Rightarrow> Some x | None \<Rightarrow> first ys)"
  by (cases xs) simp_all

lemma matches_Alternative_Nil [simp]: "matches (Alternative []) s = [s]"
  by (simp add: Alternative_def)

lemma matches_Alternative_Cons:
  "matches (Alternative (r # rs)) s = concat (map (matches (Alternative rs)) (matches r s))"
  by (simp add: Alternative_def)

lemma matches_Alternative_Nil_fun: "matches (Alternative []) = (\<lambda>s. [s])"
  by (rule ext) simp

lemma matches_Alternative_single [simp]: "matches (Alternative [r]) s = matches r s"
  by (simp add: matches_Alternative_Cons matches_Alternative_Nil_fun)

lemma matches_Atom_seq:
  "matches (Alternative (Atom P # rs)) s =
     (case s of [] \<Rightarrow> [] | c # cs \<Rightarrow> if P c then matches (Alternative rs) cs else [])"
  by (simp add: matches_Alternative_Cons split: list.splits)

lemma star_greedy_Atom_Nil: "star_greedy (matches (Atom P)) [] = [[]]"
  by (subst star_greedy.simps) simp

lemma star_greedy_Atom_Cons:
  "star_greedy (matches (Atom P)) (c # cs) =
     (if P c then star_greedy (matches (Atom P)) cs else []) @ [c # cs]"
  by (subst star_greedy.simps) simp

lemma star_lazy_Atom_Nil: "star_lazy (matches (Atom P)) [] = [[]]"
  by (subst star_lazy.simps) simp

lemma star_lazy_Atom_Cons:
  "star_lazy (matches (Atom P)) (c # cs) =
     (c # cs) # (if P c then star_lazy (matches (Atom P)) cs else [])"
  by (subst star_lazy.simps) simp

lemma matches_Star_seq_Nil:
  "matches (Alternative (Star (Atom P) # rs)) [] = matches (Alternative rs) []"
  by (simp add: matches_Alternative_Cons star_greedy_Atom_Nil)

lemma matches_Star_seq_Cons:
  "matches (Alternative (Star (Atom P) # rs)) (c # cs) =
     (if P c then matches (Alternative (Star (Atom P) # rs)) cs else [])
     @ matches (Alternative rs) (c # cs)"
  by (simp add: matches_Alternative_Cons star_greedy_Atom_Cons)

lemma matches_LazyStar_seq_Nil:
  "matches (Alternative (LazyStar (Atom P) # rs)) [] = matches (Alternative rs) []"
  by (simp add: matches_Alternative_Cons star_lazy_Atom_Nil)

lemma matches_LazyStar_seq_Cons:
  "matches (Alternative (LazyStar (Atom P) # rs)) (c # cs) =
     matches (Alternative rs) (c # cs)
     @ (if P c then matches (Alternative (LazyStar (Atom P) # rs)) cs else [])"
  by (simp add: matches_Alternative_Cons star_lazy_Atom_Cons)

lemma matches_lit_ci:
  "matches (lit_ci w) s = (if starts_with_ci w s then [drop (length w) s] else [])"
proof (induction w arbitrary: s)
  case Nil
  show ?case by (simp add: lit_ci_def)
next
  case (Cons p ps)
  have "matches (lit_ci (p # ps)) s =
      (case s of [] \<Rightarrow> [] | c # cs \<Rightarrow> if ci p c then matches (lit_ci ps) cs else [])"
    by (cases s) (simp_all add: lit_ci_def matches_Atom_seq)
  then show ?case using Cons.IH by (cases s) simp_all
qed

lemma replace_all_eq_replace_each:
  assumes m: "\<And>s. first (matches r s) = at s"
    and short: "\<And>s t. at s = Some t \<Longrightarrow> length t < length s"
  shows "replace_all r rep s = replace_each at rep s"
proof (induction "length s" arbitrary: s rule: less_induct)
  case less
  show ?case
  proof (cases s)
    case Nil
    have "at [] = None" using short [of "[]"] by (cases "at []") auto
    then have "matches r [] = []" using m [of "[]"] by (cases "matches r []") auto
    then show ?thesis using Nil by simp
  next
    case (Cons c cs)
    show ?thesis
    proof (cases "at (c # cs)")
      case None
      then have "matches r (c # cs) = []" using m [of "c # cs"] by (cases "matches r (c # cs)") auto
      moreover have "replace_all r rep cs = replace_each at rep cs"
        using less [of cs] Cons by simp
      ultimately show ?thesis using Cons None by simp
    next
      case (Some t)
      then obtain ts where ms: "matches r (c # cs) = t # ts"
        using m [of "c # cs"] by (cases "matches r (c # cs)") auto
      have lt: "length t < length (c # cs)" using short [OF Some] .
      then have "replace_all r rep t = replace_each at rep t"
        using less [of t] Cons by simp
      then show ?thesis using Cons Some ms lt by simp
    qed
  qed
qed

lemma starts_with_ci_length: "starts_with_ci w s \<Longrightarrow> length w \<le> length s"
  by (induction w s rule: starts_with_ci.induct) auto

lemma after_first_ci_length: "after_first_ci w s = Some t \<Longrightarrow> length t \<le> length s"
  by (induction w s rule: after_first_ci.induct) (auto split: if_splits)

lemma first_lazy_any_lit:
  assumes "\<And>c. P c"
  shows "first (matches (Alternative [LazyStar (Atom P), lit_ci w]) s) = after_first_ci w s"
proof (induction s)
  case Nil
  show ?case
    by (simp add: matches_LazyStar_seq_Nil matches_lit_ci)
next
  case (Cons c cs)
  show ?case using Cons.IH assms
    by (simp add: matches_LazyStar_seq_Cons matches_lit_ci first_append)
qed

lemma first_paired:
  "first (matches (Alternative [lit_ci (''<'' @ name @ ''>''),
       LazyStar (Atom (\<lambda>c. is_space c \<or> \<not> is_space c)), lit_ci (''</'' @ name @ ''>'')]) s)
     = paired_tag_at name s"
  by (subst matches_Alternative_Cons)
     (simp add: matches_lit_ci first_lazy_any_lit paired_tag_at_def)

lemma paired_tag_at_length: "paired_tag_at name s = Some t \<Longrightarrow> length t < length s"
proof -
  assume a: "paired_tag_at name s = Some t"
  then have sw: "starts_with_ci (''<'' @ name @ ''>'') s"
    and af: "after_first_ci (''</'' @ name @ ''>'') (drop (length name + 2) s) = Some t"
    by (auto simp: paired_tag_at_def split: if_splits)
  from starts_with_ci_length [OF sw] have "length name + 2 \<le> length s" by simp
  moreover from after_first_ci_length [OF af] have "length t \<le> length s - (length name + 2)" by simp
  ultimately show ?thesis by arith
qed

lemma ci_lt: "ci CHR ''<'' c \<longleftrightarrow> c = 0x3C"
  by (auto simp: ci_def Canonicalize_def)

lemma ci_gt: "ci CHR ''>'' c \<longleftrightarrow> c = 0x3E"
  by (auto simp: ci_def Canonicalize_def)

lemma ci_slash: "ci CHR ''/'' c \<longleftrightarrow> c = 0x2F"
  by (auto simp: ci_def Canonicalize_def)

lemma not_ci_s_slash: "\<not> ci CHR ''s'' 0x2F" "\<not> ci CHR ''d'' 0x2F"
  by (simp_all add: ci_def Canonicalize_def)

lemma ci_s_d: "ci CHR ''s'' c \<Longrightarrow> \<not> ci CHR ''d'' c"
  by (simp add: ci_def Canonicalize_def)

lemma matches_notgt_gt:
  "matches (Alternative [Star (Atom (\<lambda>c. \<not> ci CHR ''>'' c)), Atom (ci CHR ''>'')]) s
     = (case after_gt s of None \<Rightarrow> [] | Some r \<Rightarrow> [r])"
proof (induction s)
  case Nil
  show ?case by (simp add: matches_Star_seq_Nil after_gt_def matches_Atom_seq)
next
  case (Cons c cs)
  then show ?case
    by (simp add: matches_Star_seq_Cons after_gt_def matches_Atom_seq ci_gt)
qed

lemma matches_Opt_seq:
  "matches (Alternative (Opt r # rs)) s =
     concat (map (matches (Alternative rs)) (matches r s)) @ matches (Alternative rs) s"
  by (simp add: matches_Alternative_Cons Opt_def)

lemma matches_Or_seq:
  "matches (Alternative (Or a b # rs)) s =
     concat (map (matches (Alternative rs)) (matches a s))
     @ concat (map (matches (Alternative rs)) (matches b s))"
  by (simp add: matches_Alternative_Cons)

lemma starts_with_names_excl:
  "starts_with_ci ''search_rag'' r \<Longrightarrow> \<not> starts_with_ci ''duckduckgo_search'' r"
  by (cases r) (auto dest: ci_s_d)

lemma starts_with_names_slash:
  "\<not> starts_with_ci ''search_rag'' (0x2F # r)" "\<not> starts_with_ci ''duckduckgo_search'' (0x2F # r)"
  by (simp_all add: not_ci_s_slash)

lemma tag_tail_eq:
  "tag_tail r = (case tag_rest r of None \<Rightarrow> [] | Some t \<Rightarrow> [t])"
  unfolding tag_tail_def tag_rest_def
  by (subst matches_Or_seq)
     (auto simp: matches_lit_ci matches_notgt_gt dest: starts_with_names_excl)

lemma first_tag_tail: "first (tag_tail r) = tag_rest r"
  by (simp add: tag_tail_eq split: option.splits)

lemma tag_rest_slash: "tag_rest (0x2F # r) = None"
  unfolding tag_rest_def by (simp only: starts_with_names_slash if_False)

lemma tag_rest_Nil: "tag_rest [] = None"
  by (simp add: tag_rest_def)

lemma first_standalone: "first (matches re_standalone s) = standalone_tag_at s"
proof (cases s)
  case Nil
  then show ?thesis by (simp add: re_standalone_def matches_Atom_seq standalone_tag_at_def)
next
  case (Cons c cs)
  have m: "matches re_standalone (c # cs) =
      (if c = 0x3C then
         (case cs of [] \<Rightarrow> [] | d # ds \<Rightarrow> if d = 0x2F then tag_tail ds else []) @ tag_tail cs
       else [])"
    unfolding re_standalone_def tag_tail_def
    by (simp add: matches_Atom_seq matches_Opt_seq ci_lt ci_slash split: list.splits)
  show ?thesis
  proof (cases "c = 0x3C")
    case False
    then show ?thesis using Cons m by (simp add: standalone_tag_at_def)
  next
    case lt: True
    show ?thesis
    proof (cases cs)
      case Nil
      then show ?thesis using \<open>s = c # cs\<close> lt m
        by (simp add: standalone_tag_at_def first_tag_tail tag_rest_Nil)
    next
      case (Cons d ds)
      show ?thesis
      proof (cases "d = 0x2F")
        case True
        have "tag_tail cs = []"
          using Cons True by (simp add: tag_tail_eq tag_rest_slash)
        then have "matches re_standalone s = tag_tail ds"
          using \<open>s = c # cs\<close> lt Cons True m by simp
        then show ?thesis using \<open>s = c # cs\<close> lt Cons True
          by (simp add: standalone_tag_at_def first_tag_tail)
      next
        case False
        then have "matches re_standalone s = tag_tail cs"
          using \<open>s = c # cs\<close> lt Cons m by simp
        then show ?thesis using \<open>s = c # cs\<close> lt Cons False
          by (simp add: standalone_tag_at_def first_tag_tail)
      qed
    qed
  qed
qed

lemma after_gt_length: "after_gt s = Some t \<Longrightarrow> length t < length s"
proof -
  assume "after_gt s = Some t"
  then obtain c where "dropWhile (\<lambda>c. c \<noteq> 0x3E) s = c # t"
    by (auto simp: after_gt_def split: list.splits)
  then have "length s = length (takeWhile (\<lambda>c. c \<noteq> 0x3E) s) + Suc (length t)"
    by (metis length_append takeWhile_dropWhile_id length_Cons)
  then show ?thesis by simp
qed

lemma tag_rest_length: "tag_rest s = Some t \<Longrightarrow> length t < Suc (length s)"
  by (auto simp: tag_rest_def split: if_splits dest!: after_gt_length)

lemma standalone_tag_at_length: "standalone_tag_at s = Some t \<Longrightarrow> length t < length s"
  by (auto simp: standalone_tag_at_def split: list.splits if_splits dest!: tag_rest_length)

lemma is_space_LF: "is_space 0x0A"
  by (simp add: is_space_def LineTerminator_def)

lemma after_last_LF_Cons_mem:
  "0x0A \<in> set w \<Longrightarrow> after_last_LF (c # w) = after_last_LF w"
  by (simp add: after_last_LF_def takeWhile_append1 [where x = "0x0A"])

lemma takeWhile_snoc_stop:
  "\<forall>x\<in>set xs. P x \<Longrightarrow> \<not> P y \<Longrightarrow> takeWhile P (xs @ [y]) = xs"
  by (induction xs) auto

lemma after_last_LF_Cons_LF:
  "0x0A \<notin> set w \<Longrightarrow> after_last_LF (0x0A # w) = w"
proof -
  assume "0x0A \<notin> set w"
  then have "\<forall>x\<in>set (rev w). x \<noteq> 0x0A" by auto
  then have "takeWhile (\<lambda>c. c \<noteq> 0x0A) (rev w @ [0x0A]) = rev w"
    by (rule takeWhile_snoc_stop) simp
  then show ?thesis by (simp add: after_last_LF_def)
qed

lemma first_append_None: "first xs = None \<Longrightarrow> first (xs @ ys) = first ys"
  by (cases xs) simp_all

lemma first_append_Some: "first xs = Some x \<Longrightarrow> first (xs @ ys) = Some x"
  by (cases xs) simp_all

lemma after_last_LF_length: "length (after_last_LF w) \<le> length w"
  by (simp add: after_last_LF_def) (metis length_rev length_takeWhile_le)

lemma after_last_LF_no_LF: "0x0A \<notin> set (after_last_LF w)"
  by (auto simp: after_last_LF_def dest: set_takeWhileD)

lemma after_last_LF_spaces: "\<forall>c\<in>set w. is_space c \<Longrightarrow> \<forall>c\<in>set (after_last_LF w). is_space c"
  by (auto simp: after_last_LF_def dest: set_takeWhileD)

lemma first_star_greedy_Atom:
  "first (star_greedy (matches (Atom P)) t) = Some (dropWhile P t)"
proof (induction t)
  case Nil
  show ?case by (simp only: star_greedy_Atom_Nil first_simps dropWhile.simps)
next
  case (Cons c cs)
  show ?case
  proof (cases "P c")
    case True
    then show ?thesis using Cons.IH
      by (simp only: star_greedy_Atom_Cons if_True first_append_Some dropWhile.simps)
  next
    case False
    then show ?thesis
      by (simp only: star_greedy_Atom_Cons if_False append_Nil first_simps dropWhile.simps)
  qed
qed

lemma matches_Plus_LF:
  "first (matches (Plus (Atom (\<lambda>c. c = (0x0A::code_unit)))) s) =
     (case s of [] \<Rightarrow> None | c # cs \<Rightarrow> if c = 0x0A then Some (dropWhile (\<lambda>c. c = 0x0A) cs) else None)"
proof (cases s)
  case Nil
  then show ?thesis by (simp add: Plus_def)
next
  case (Cons c cs)
  have "matches (Plus (Atom (\<lambda>c. c = 0x0A))) (c # cs) =
      (if c = 0x0A then star_greedy (matches (Atom (\<lambda>c. c = 0x0A))) cs else [])"
    unfolding Plus_def by (simp only: matches.simps list.case) simp
  then show ?thesis using Cons by (simp add: first_star_greedy_Atom)
qed

lemma first_blank_tail:
  "first (matches (Alternative blank_tail) t) =
     (if 0x0A \<in> set (takeWhile is_space t)
      then Some (after_last_LF (takeWhile is_space t) @ dropWhile is_space t) else None)"
proof (induction t)
  case Nil
  show ?case by (simp add: blank_tail_def matches_Star_seq_Nil matches_Plus_LF)
next
  case (Cons c cs)
  let ?K = "Alternative blank_tail"
  have m: "matches ?K (c # cs) =
      (if is_space c then matches ?K cs else [])
      @ matches (Plus (Atom (\<lambda>c. c = 0x0A))) (c # cs)"
    unfolding blank_tail_def by (simp only: matches_Star_seq_Cons matches_Alternative_single)
  have p: "first (matches (Plus (Atom (\<lambda>c. c = 0x0A))) (c # cs)) =
      (if c = 0x0A then Some (dropWhile (\<lambda>c. c = 0x0A) cs) else None)"
    by (simp add: matches_Plus_LF)
  show ?case
  proof (cases "is_space c")
    case False
    then have "c \<noteq> 0x0A" using is_space_LF by auto
    then show ?thesis using False m p by simp
  next
    case sp: True
    show ?thesis
    proof (cases "0x0A \<in> set (takeWhile is_space cs)")
      case True
      then have "first (matches ?K cs) =
          Some (after_last_LF (takeWhile is_space cs) @ dropWhile is_space cs)"
        using Cons.IH by simp
      then have "first (matches ?K (c # cs)) =
          Some (after_last_LF (takeWhile is_space cs) @ dropWhile is_space cs)"
        using m sp by (simp add: first_append_Some)
      then show ?thesis using sp True by (simp add: after_last_LF_Cons_mem)
    next
      case False
      then have "first (matches ?K cs) = None"
        using Cons.IH by simp
      then have f: "first (matches ?K (c # cs)) =
          (if c = 0x0A then Some (dropWhile (\<lambda>c. c = 0x0A) cs) else None)"
        using m sp p by (simp add: first_append_None)
      show ?thesis
      proof (cases "c = 0x0A")
        case True
        have "dropWhile (\<lambda>c. c = 0x0A) cs = cs"
        proof (cases cs)
          case Nil then show ?thesis by simp
        next
          case (Cons d ds)
          then have "d \<noteq> 0x0A" using False is_space_LF by auto
          then show ?thesis using Cons by simp
        qed
        then show ?thesis using sp f True False
          by (simp add: after_last_LF_Cons_LF)
      next
        case F2: False
        then show ?thesis using sp f False by simp
      qed
    qed
  qed
qed

lemma first_blank_rest:
  "first (matches (Alternative (Star (Atom is_space) # Atom (\<lambda>c. c = 0x0A) # blank_tail)) t) =
     (if 2 \<le> count_list (takeWhile is_space t) 0x0A
      then Some (after_last_LF (takeWhile is_space t) @ dropWhile is_space t) else None)"
proof (induction t)
  case Nil
  show ?case by (simp add: matches_Star_seq_Nil matches_Atom_seq)
next
  case (Cons c cs)
  let ?K = "Alternative (Star (Atom is_space) # Atom (\<lambda>c. c = 0x0A) # blank_tail)"
  have m: "matches ?K (c # cs) =
      (if is_space c then matches ?K cs else [])
      @ (if c = 0x0A then matches (Alternative blank_tail) cs else [])"
    by (simp only: matches_Star_seq_Cons matches_Atom_seq list.case)
  show ?case
  proof (cases "is_space c")
    case False
    then have "c \<noteq> 0x0A" using is_space_LF by auto
    then show ?thesis using False m by simp
  next
    case sp: True
    show ?thesis
    proof (cases "2 \<le> count_list (takeWhile is_space cs) 0x0A")
      case True
      then have mem: "0x0A \<in> set (takeWhile is_space cs)"
        by (metis count_notin not_numeral_le_zero)
      have "first (matches ?K cs) =
          Some (after_last_LF (takeWhile is_space cs) @ dropWhile is_space cs)"
        using Cons.IH True by simp
      then have "first (matches ?K (c # cs)) =
          Some (after_last_LF (takeWhile is_space cs) @ dropWhile is_space cs)"
        using m sp by (simp add: first_append_Some)
      then show ?thesis using sp True mem by (simp add: after_last_LF_Cons_mem)
    next
      case False
      then have "first (matches ?K cs) = None"
        using Cons.IH by simp
      then have f: "first (matches ?K (c # cs)) =
          (if c = 0x0A then first (matches (Alternative blank_tail) cs) else None)"
        using m sp by (simp add: first_append_None)
      have mem: "0x0A \<in> set (takeWhile is_space cs) \<longleftrightarrow> 1 \<le> count_list (takeWhile is_space cs) 0x0A"
        using count_list_0_iff [of "takeWhile is_space cs" "0x0A"] by auto
      show ?thesis
      proof (cases "c = 0x0A")
        case True
        then show ?thesis using sp f False mem
          by (auto simp: first_blank_tail after_last_LF_Cons_mem)
      next
        case F2: False
        then show ?thesis using sp f False by simp
      qed
    qed
  qed
qed

lemma first_blank_lines: "first (matches re_blank_lines s) = blank_run_at s"
proof -
  have re: "re_blank_lines = Alternative (Atom (\<lambda>c. c = 0x0A) # Star (Atom is_space) # Atom (\<lambda>c. c = 0x0A) # blank_tail)"
    by (simp add: re_blank_lines_def blank_tail_def)
  show ?thesis
  proof (cases s)
    case Nil
    then show ?thesis unfolding re by (simp add: matches_Atom_seq blank_run_at_def)
  next
    case (Cons c cs)
    have "matches re_blank_lines (c # cs) =
       (if c = 0x0A then matches (Alternative (Star (Atom is_space) # Atom (\<lambda>c. c = 0x0A) # blank_tail)) cs else [])"
      unfolding re by (simp only: matches_Atom_seq list.case)
    then show ?thesis using Cons
      by (simp add: first_blank_rest blank_run_at_def)
  qed
qed

lemma blank_run_at_length: "blank_run_at s = Some t \<Longrightarrow> length t < length s"
proof -
  assume a: "blank_run_at s = Some t"
  then obtain c cs where s: "s = c # cs"
    and t: "t = after_last_LF (takeWhile is_space cs) @ dropWhile is_space cs"
    by (auto simp: blank_run_at_def split: list.splits if_splits)
  have "length (takeWhile is_space cs) + length (dropWhile is_space cs) = length cs"
    by (metis length_append takeWhile_dropWhile_id)
  then show ?thesis using s t after_last_LF_length [of "takeWhile is_space cs"] by simp
qed

lemma replace_search_rag:
  "replace_all re_search_rag rep s = replace_each (paired_tag_at ''search_rag'') rep s"
proof (rule replace_all_eq_replace_each)
  show "first (matches re_search_rag s) = paired_tag_at ''search_rag'' s" for s
    using first_paired [of "''search_rag''" s] by (simp add: re_search_rag_def)
  show "paired_tag_at ''search_rag'' s = Some t \<Longrightarrow> length t < length s" for s t
    by (rule paired_tag_at_length)
qed

lemma replace_duckduckgo_search:
  "replace_all re_duckduckgo_search rep s = replace_each (paired_tag_at ''duckduckgo_search'') rep s"
proof (rule replace_all_eq_replace_each)
  show "first (matches re_duckduckgo_search s) = paired_tag_at ''duckduckgo_search'' s" for s
    using first_paired [of "''duckduckgo_search''" s] by (simp add: re_duckduckgo_search_def)
  show "paired_tag_at ''duckduckgo_search'' s = Some t \<Longrightarrow> length t < length s" for s t
    by (rule paired_tag_at_length)
qed

lemma replace_standalone:
  "replace_all re_standalone rep s = replace_each standalone_tag_at rep s"
  by (rule replace_all_eq_replace_each) (rule first_standalone, rule standalone_tag_at_length)

lemma replace_blank_lines:
  "replace_all re_blank_lines rep s = replace_each blank_run_at rep s"
  by (rule replace_all_eq_replace_each) (rule first_blank_lines, rule blank_run_at_length)

lemma trim_Nil: "trim [] = []"
  by (simp add: trim_def)

lemma cleanResponse_sanitize: "cleanResponse text = sanitize text"
proof (cases "text = []")
  case True
  then show ?thesis by (simp add: cleanResponse_def sanitize_def truthy_def trim_Nil)
next
  case False
  then show ?thesis
    by (simp add: cleanResponse_def sanitize_def truthy_def Let_def replace_search_rag
        replace_duckduckgo_search replace_standalone replace_blank_lines)
qed

lemma lead_LF_Cons:
  "lead_LF (c # s) = (if is_space c then (if c = 0x0A then 1 else 0) + lead_LF s else 0)"
  by (simp add: lead_LF_def)

lemma lead_LF_after:
  "lead_LF (after_last_LF (takeWhile is_space cs) @ dropWhile is_space cs) = 0"
proof -
  let ?a = "after_last_LF (takeWhile is_space cs)"
  have sp: "\<forall>c\<in>set ?a. is_space c"
    by (rule after_last_LF_spaces) (auto dest: set_takeWhileD)
  have "takeWhile is_space (?a @ dropWhile is_space cs) = ?a @ takeWhile is_space (dropWhile is_space cs)"
    using sp by (simp add: takeWhile_append2)
  also have "takeWhile is_space (dropWhile is_space cs) = []"
    by (metis takeWhile_eq_Nil_iff dropWhile_eq_Nil_conv hd_dropWhile)
  finally show ?thesis
    using after_last_LF_no_LF [of "takeWhile is_space cs"] by (simp add: lead_LF_def)
qed

lemma lead_LF_collapse:
  "lead_LF (replace_each blank_run_at (js ''\<newline>\<newline>'') s) \<le> lead_LF s"
proof (induction "length s" arbitrary: s rule: less_induct)
  case less
  show ?case
  proof (cases s)
    case Nil
    then show ?thesis by simp
  next
    case (Cons c cs)
    show ?thesis
    proof (cases "blank_run_at (c # cs)")
      case None
      then have "replace_each blank_run_at (js ''\<newline>\<newline>'') s
          = c # replace_each blank_run_at (js ''\<newline>\<newline>'') cs"
        using Cons by simp
      moreover have "lead_LF (replace_each blank_run_at (js ''\<newline>\<newline>'') cs) \<le> lead_LF cs"
        using less [of cs] Cons by simp
      ultimately show ?thesis using Cons by (simp add: lead_LF_Cons)
    next
      case (Some t)
      then have c: "c = 0x0A" and two: "2 \<le> lead_LF cs"
        and t: "t = after_last_LF (takeWhile is_space cs) @ dropWhile is_space cs"
        by (auto simp: blank_run_at_def lead_LF_def split: if_splits)
      have lt: "length t < length s" using blank_run_at_length [OF Some] Cons by simp
      then have eq: "replace_each blank_run_at (js ''\<newline>\<newline>'') s
          = 0x0A # 0x0A # replace_each blank_run_at (js ''\<newline>\<newline>'') t"
        using Cons Some by (simp add: js_def)
      have "lead_LF (replace_each blank_run_at (js ''\<newline>\<newline>'') t) \<le> lead_LF t"
        using less [of t] lt by simp
      then have "lead_LF (replace_each blank_run_at (js ''\<newline>\<newline>'') t) = 0"
        using t lead_LF_after [of cs] by simp
      then show ?thesis using eq Cons c two is_space_LF by (simp add: lead_LF_Cons)
    qed
  qed
qed

lemma lead_LF_take2: "take 2 s = [0x0A, 0x0A] \<Longrightarrow> 2 \<le> lead_LF s"
proof -
  assume "take 2 s = [0x0A, 0x0A]"
  then obtain r where "s = 0x0A # 0x0A # r"
    by (cases s; cases "tl s") (auto split: if_splits)
  then show ?thesis using is_space_LF by (simp add: lead_LF_Cons)
qed

lemma lead_LF_hd: "lead_LF s = 0 \<Longrightarrow> take 1 s \<noteq> [0x0A]"
  using is_space_LF by (cases s) (auto simp: lead_LF_Cons)

lemma collapse_no_triple:
  "\<not> has_triple_LF (replace_each blank_run_at (js ''\<newline>\<newline>'') s)"
proof (induction "length s" arbitrary: s rule: less_induct)
  case less
  let ?f = "replace_each blank_run_at (js ''\<newline>\<newline>'')"
  show ?case
  proof (cases s)
    case Nil
    then show ?thesis by simp
  next
    case (Cons c cs)
    show ?thesis
    proof (cases "blank_run_at (c # cs)")
      case None
      then have eq: "?f s = c # ?f cs"
        using Cons by simp
      have ih: "\<not> has_triple_LF (?f cs)"
        using less [of cs] Cons by simp
      have "\<not> (c = 0x0A \<and> take 2 (?f cs) = [0x0A, 0x0A])"
      proof
        assume a: "c = 0x0A \<and> take 2 (?f cs) = [0x0A, 0x0A]"
        then have "2 \<le> lead_LF (?f cs)" by (simp add: lead_LF_take2)
        then have "2 \<le> lead_LF cs" using lead_LF_collapse [of cs] by simp
        then show False using None a by (simp add: blank_run_at_def lead_LF_def)
      qed
      then show ?thesis using eq ih by simp
    next
      case (Some t)
      then have c: "c = 0x0A"
        and t: "t = after_last_LF (takeWhile is_space cs) @ dropWhile is_space cs"
        by (auto simp: blank_run_at_def split: if_splits)
      have lt: "length t < length s" using blank_run_at_length [OF Some] Cons by simp
      then have eq: "?f s = 0x0A # 0x0A # ?f t"
        using Cons Some by (simp add: js_def)
      have ih: "\<not> has_triple_LF (?f t)"
        using less [of t] lt by simp
      have "lead_LF (?f t) \<le> lead_LF t" by (rule lead_LF_collapse)
      then have "lead_LF (?f t) = 0" using t lead_LF_after [of cs] by simp
      then have "take 1 (?f t) \<noteq> [0x0A]" by (rule lead_LF_hd)
      then have "take 2 (0x0A # ?f t) \<noteq> [0x0A, 0x0A]" "take 2 (?f t) \<noteq> [0x0A, 0x0A]"
        by (cases "?f t"; simp)+
      then show ?thesis using eq ih by simp
    qed
  qed
qed

lemma has_triple_LF_iff:
  "has_triple_LF s \<longleftrightarrow> (\<exists>pre post. s = pre @ [0x0A, 0x0A, 0x0A] @ post)"
proof
  show "has_triple_LF s \<Longrightarrow> \<exists>pre post. s = pre @ [0x0A, 0x0A, 0x0A] @ post"
  proof (induction s)
    case Nil then show ?case by simp
  next
    case (Cons c cs)
    show ?case
    proof (cases "c = 0x0A \<and> take 2 cs = [0x0A, 0x0A]")
      case True
      then have "cs = [0x0A, 0x0A] @ drop 2 cs" by (metis append_take_drop_id)
      then have "c # cs = [] @ [0x0A, 0x0A, 0x0A] @ drop 2 cs" using True by simp
      then show ?thesis by blast
    next
      case False
      then have "has_triple_LF cs" using Cons.prems by auto
      then obtain pre post where "cs = pre @ [0x0A, 0x0A, 0x0A] @ post" using Cons.IH by blast
      then have "c # cs = (c # pre) @ [0x0A, 0x0A, 0x0A] @ post" by simp
      then show ?thesis by blast
    qed
  qed
next
  assume "\<exists>pre post. s = pre @ [0x0A, 0x0A, 0x0A] @ post"
  then obtain pre post where s: "s = pre @ [0x0A, 0x0A, 0x0A] @ post" by blast
  show "has_triple_LF s" unfolding s by (induction pre) auto
qed

lemma trim_infix: "\<exists>a b. s = a @ trim s @ b"
proof -
  let ?u = "dropWhile is_space s"
  have "rev ?u = takeWhile is_space (rev ?u) @ dropWhile is_space (rev ?u)" by simp
  then have "?u = rev (dropWhile is_space (rev ?u)) @ rev (takeWhile is_space (rev ?u))"
    by (metis rev_append rev_rev_ident)
  then have "s = takeWhile is_space s @ trim s @ rev (takeWhile is_space (rev ?u))"
    unfolding trim_def by (metis takeWhile_dropWhile_id)
  then show ?thesis by blast
qed

lemma cleanResponse_no_triple:
  "\<not> (\<exists>pre post. cleanResponse text = pre @ js ''\<newline>\<newline>\<newline>'' @ post)"
proof
  assume "\<exists>pre post. cleanResponse text = pre @ js ''\<newline>\<newline>\<newline>'' @ post"
  then obtain pre post where p: "sanitize text = pre @ [0x0A, 0x0A, 0x0A] @ post"
    by (auto simp: cleanResponse_sanitize js_def)
  define u where "u = replace_each blank_run_at (js ''\<newline>\<newline>'')
       (replace_each standalone_tag_at (js '''')
         (replace_each (paired_tag_at ''duckduckgo_search'') (js '''')
           (replace_each (paired_tag_at ''search_rag'') (js '''') text)))"
  obtain a b where "u = a @ trim u @ b" using trim_infix by blast
  then have "u = (a @ pre) @ [0x0A, 0x0A, 0x0A] @ (post @ b)"
    using p by (simp add: sanitize_def u_def)
  then have "has_triple_LF u" unfolding has_triple_LF_iff by blast
  then show False unfolding u_def using collapse_no_triple by blast
qed

lemma first_None_iff: "first xs = None \<longleftrightarrow> xs = []"
  by (cases xs) simp_all

lemma standalone_None_iff: "standalone_tag_at s = None \<longleftrightarrow> matches re_standalone s = []"
  using first_standalone [of s] first_None_iff [of "matches re_standalone s"] by simp

lemma starts_with_ci_append:
  "starts_with_ci (u @ v) s \<longleftrightarrow> starts_with_ci u s \<and> starts_with_ci v (drop (length u) s)"
  by (induction u s rule: starts_with_ci.induct) simp_all

lemma paired_imp_standalone:
  assumes p: "paired_tag_at name s \<noteq> None"
    and name: "name = ''search_rag'' \<or> name = ''duckduckgo_search''"
  shows "standalone_tag_at s \<noteq> None"
proof -
  from p have "starts_with_ci (''<'' @ name @ ''>'') s"
    by (auto simp: paired_tag_at_def split: if_splits)
  then have "starts_with_ci ''<'' s \<and> starts_with_ci name (drop (length ''<'') s)
      \<and> starts_with_ci ''>'' (drop (length name) (drop (length ''<'') s))"
    by (simp only: starts_with_ci_append)
  then have lt: "starts_with_ci ''<'' s" and nm: "starts_with_ci name (drop 1 s)"
    and gt: "starts_with_ci ''>'' (drop (length name) (drop 1 s))"
    by simp_all
  from lt obtain c cs where s: "s = c # cs" and c: "c = 0x3C"
    by (cases s) (auto simp: ci_lt)
  from gt obtain g r where g: "drop (length name) cs = g # r" and g3: "g = 0x3E"
    using s by (cases "drop (length name) cs") (auto simp: ci_gt)
  then have ag: "after_gt (drop (length name) cs) \<noteq> None"
    by (simp add: after_gt_def)
  from nm name s obtain d ds where cs: "cs = d # ds" and d: "ci CHR ''s'' d \<or> ci CHR ''d'' d"
    by (cases cs) auto
  then have d2: "d \<noteq> 0x2F" using not_ci_s_slash by auto
  have "tag_rest cs \<noteq> None"
    using name nm s ag starts_with_names_excl [of cs]
    by (auto simp: tag_rest_def)
  then show ?thesis using s c cs d2 by (simp add: standalone_tag_at_def)
qed

lemma replace_each_no_match:
  "(\<And>t. has_tag_markup t \<or> at t = None) \<Longrightarrow> \<not> has_tag_markup s \<Longrightarrow> replace_each at rep s = s"
proof (induction s)
  case Nil
  show ?case by simp
next
  case (Cons c cs)
  have "\<not> has_tag_markup cs" using Cons.prems(2) by simp
  then have "replace_each at rep cs = cs" using Cons.IH Cons.prems(1) by blast
  moreover have "at (c # cs) = None" using Cons.prems by blast
  ultimately show ?case by simp
qed

lemma markup_or_standalone: "has_tag_markup t \<or> standalone_tag_at t = None"
proof (cases t)
  case Nil
  then show ?thesis by (simp add: standalone_tag_at_def)
next
  case (Cons c cs)
  then show ?thesis using standalone_None_iff [of t] by auto
qed

lemma markup_or_paired:
  "name = ''search_rag'' \<or> name = ''duckduckgo_search'' \<Longrightarrow>
   has_tag_markup t \<or> paired_tag_at name t = None"
  using paired_imp_standalone [of name t] markup_or_standalone [of t] by (cases "paired_tag_at name t") auto

lemma cleanResponse_no_markup:
  assumes "\<not> has_tag_markup text"
  shows "cleanResponse text = trim (replace_all re_blank_lines (js ''\<newline>\<newline>'') text)"
proof -
  have 1: "replace_each (paired_tag_at ''search_rag'') (js '''') text = text"
    using assms by (intro replace_each_no_match markup_or_paired) simp_all
  have 2: "replace_each (paired_tag_at ''duckduckgo_search'') (js '''') text = text"
    using assms by (intro replace_each_no_match markup_or_paired) simp_all
  have 3: "replace_each standalone_tag_at (js '''') text = text"
    using assms by (intro replace_each_no_match markup_or_standalone) simp_all
  show ?thesis
    by (simp add: cleanResponse_sanitize sanitize_def 1 2 3 replace_blank_lines)
qed

lemma no_lt_no_markup: "0x3C \<notin> set s \<Longrightarrow> \<not> has_tag_markup s"
proof (induction s)
  case Nil show ?case by simp
next
  case (Cons c cs)
  then have "c \<noteq> 0x3C" by auto
  then have "standalone_tag_at (c # cs) = None" by (simp add: standalone_tag_at_def)
  then show ?case using Cons by (simp add: standalone_None_iff)
qed

section \<open>Facts about the handlers\<close>

lemma AdditionalInfo_settle_loading: "\<not> ai_loading (fst (AdditionalInfo_settle st outcome))"
  by (simp add: AdditionalInfo_settle_def AdditionalInfo_finally_def split: sum.splits)

lemma FinalResponse_settle_loading: "\<not> fr_loading (fst (FinalResponse_settle st outcome))"
  by (simp add: FinalResponse_settle_def FinalResponse_finally_def split: sum.splits)

lemma checkHealth_settle_loading: "\<not> hc_loading (fst (checkHealth_settle st outcome))"
  by (simp add: checkHealth_settle_def checkHealth_finally_def split: sum.splits)

lemma or_default_falsy: "falsy a \<Longrightarrow> or_default a d = d"
  by (auto simp: falsy_def or_default_def truthy_def)

lemma or_default_truthy: "\<not> falsy (Some m) \<Longrightarrow> or_default (Some m) d = m"
  by (auto simp: falsy_def or_default_def truthy_def)

lemma js_or_falsy: "falsy a \<Longrightarrow> js_or a b = b"
  by (auto simp: falsy_def js_or_def truthy_def)

lemma js_or_truthy: "\<not> falsy (Some m) \<Longrightarrow> js_or (Some m) b = Some m"
  by (auto simp: falsy_def js_or_def truthy_def)

lemma AdditionalInfo_settle_Rejected:
  "AdditionalInfo_settle st (Rejected (Some err)) =
     (st\<lparr>ai_error := Some (AdditionalInfo_errorMessage err), ai_loading := False\<rparr>, None)"
  by (simp add: AdditionalInfo_settle_def AdditionalInfo_try_def AdditionalInfo_catch_def
      AdditionalInfo_finally_def)

lemma FinalResponse_settle_Rejected:
  "FinalResponse_settle st (Rejected (Some err)) =
     (st\<lparr>fr_error := Some (FinalResponse_errorMessage err), fr_loading := False\<rparr>, None)"
  by (simp add: FinalResponse_settle_def FinalResponse_try_def FinalResponse_catch_def
      FinalResponse_finally_def)

lemma AdditionalInfo_errorMessage_cases:
  "(err_response err = Some r \<and> data_detail r = Some d \<and> \<not> falsy (Some d) \<longrightarrow>
      AdditionalInfo_errorMessage err = d)
   \<and> (err_response err = Some r \<and> falsy (data_detail r) \<and> data_message r = Some m
        \<and> \<not> falsy (Some m) \<longrightarrow>
      AdditionalInfo_errorMessage err = m)
   \<and> (err_response err = Some r \<and> falsy (data_detail r) \<and> falsy (data_message r) \<longrightarrow>
      AdditionalInfo_errorMessage err =
        js ''Server error: '' @ decimal (response_status r) @ js '' '' @ response_statusText r)
   \<and> (err_response err = None \<and> err_request err \<longrightarrow>
      AdditionalInfo_errorMessage err =
        js ''No response from server. Please check if the API server is running.'')
   \<and> (err_response err = None \<and> \<not> err_request err \<and> err_message err = Some m
        \<and> \<not> falsy (Some m) \<longrightarrow>
      AdditionalInfo_errorMessage err = m)
   \<and> (err_response err = None \<and> \<not> err_request err \<and> falsy (err_message err) \<longrightarrow>
      AdditionalInfo_errorMessage err = js ''Failed to gather information'')"
  by (auto simp: AdditionalInfo_errorMessage_def or_default_falsy or_default_truthy
      js_or_falsy js_or_truthy)

lemma FinalResponse_errorMessage_cases:
  "(response_detail err = Some d \<and> \<not> falsy (Some d) \<longrightarrow> FinalResponse_errorMessage err = d)
   \<and> (falsy (response_detail err) \<and> err_message err = Some m \<and> \<not> falsy (Some m) \<longrightarrow>
      FinalResponse_errorMessage err = m)
   \<and> (falsy (response_detail err) \<and> falsy (err_message err) \<longrightarrow>
      FinalResponse_errorMessage err = js ''Failed to generate response'')
   \<and> (err_response err = None \<longrightarrow> falsy (response_detail err))"
  by (auto simp: FinalResponse_errorMessage_def or_default_falsy or_default_truthy
      js_or_falsy js_or_truthy response_detail_def falsy_def)

lemma AdditionalInfo_settle_lifecycle:
  assumes "ai_result st = None" "ai_error st = None"
  shows "lifecycle_of (ai_loading (fst (AdditionalInfo_settle st outcome)))
           (ai_result (fst (AdditionalInfo_settle st outcome)) \<noteq> None)
           (ai_error (fst (AdditionalInfo_settle st outcome)) \<noteq> None) \<noteq> None"
  using assms
  by (cases outcome)
     (auto simp: AdditionalInfo_settle_def AdditionalInfo_try_def AdditionalInfo_catch_def
        AdditionalInfo_finally_def lifecycle_of_def split: option.splits)

lemma AdditionalInfo_step_inv:
  "AdditionalInfo_inv sys \<Longrightarrow> AdditionalInfo_inv (AdditionalInfo_step sys ev)"
proof -
  assume inv: "AdditionalInfo_inv sys"
  obtain st pending where sys: "sys = (st, pending)" by (cases sys)
  show ?thesis
  proof (cases ev)
    case (AI_Change v)
    then show ?thesis using inv sys
      by (auto simp: AdditionalInfo_inv_def AdditionalInfo_step_def)
  next
    case AI_Submit
    then show ?thesis using inv sys
      by (simp add: AdditionalInfo_inv_def AdditionalInfo_step_def AdditionalInfo_submit_def
          lifecycle_of_def)
  next
    case (AI_Settle outcome)
    show ?thesis
    proof (cases "pending = 0")
      case True
      then show ?thesis using inv sys AI_Settle
        by (simp add: AdditionalInfo_inv_def AdditionalInfo_step_def)
    next
      case False
      then have l: "ai_loading st" and p: "pending = 1"
        using inv sys by (auto simp: AdditionalInfo_inv_def split: if_splits)
      then have "ai_result st = None" "ai_error st = None"
        using inv sys by (auto simp: AdditionalInfo_inv_def lifecycle_of_def split: if_splits)
      then show ?thesis
        using sys AI_Settle p AdditionalInfo_settle_lifecycle [of st outcome]
          AdditionalInfo_settle_loading [of st outcome]
        by (simp add: AdditionalInfo_inv_def AdditionalInfo_step_def)
    qed
  qed
qed

lemma AdditionalInfo_run_inv: "AdditionalInfo_inv (AdditionalInfo_run evs)"
proof -
  have "AdditionalInfo_inv s \<Longrightarrow> AdditionalInfo_inv (foldl AdditionalInfo_step s evs)" for s
    by (induction evs arbitrary: s) (simp_all add: AdditionalInfo_step_inv)
  moreover have "AdditionalInfo_inv (AdditionalInfo_init, 0)"
    by (simp add: AdditionalInfo_inv_def AdditionalInfo_init_def lifecycle_of_def)
  ultimately show ?thesis by (simp add: AdditionalInfo_run_def)
qed

lemma FinalResponse_settle_lifecycle:
  assumes "fr_result st = None" "fr_error st = None"
  shows "lifecycle_of (fr_loading (fst (FinalResponse_settle st outcome)))
           (fr_result (fst (FinalResponse_settle st outcome)) \<noteq> None)
           (fr_error (fst (FinalResponse_settle st outcome)) \<noteq> None) \<noteq> None"
  using assms
  by (cases outcome)
     (auto simp: FinalResponse_settle_def FinalResponse_try_def FinalResponse_catch_def
        FinalResponse_finally_def lifecycle_of_def split: option.splits)

lemma FinalResponse_step_inv:
  "FinalResponse_inv sys \<Longrightarrow> FinalResponse_inv (FinalResponse_step sys ev)"
proof -
  assume inv: "FinalResponse_inv sys"
  obtain st pending where sys: "sys = (st, pending)" by (cases sys)
  show ?thesis
  proof (cases ev)
    case (FR_ChangeContent v)
    then show ?thesis using inv sys
      by (auto simp: FinalResponse_inv_def FinalResponse_step_def)
  next
    case (FR_ChangeUserQuery v)
    then show ?thesis using inv sys
      by (auto simp: FinalResponse_inv_def FinalResponse_step_def)
  next
    case FR_Submit
    then show ?thesis using inv sys
      by (simp add: FinalResponse_inv_def FinalResponse_step_def FinalResponse_submit_def
          lifecycle_of_def)
  next
    case (FR_Settle outcome)
    show ?thesis
    proof (cases "pending = 0")
      case True
      then show ?thesis using inv sys FR_Settle
        by (simp add: FinalResponse_inv_def FinalResponse_step_def)
    next
      case False
      then have l: "fr_loading st" and p: "pending = 1"
        using inv sys by (auto simp: FinalResponse_inv_def split: if_splits)
      then have "fr_result st = None" "fr_error st = None"
        using inv sys by (auto simp: FinalResponse_inv_def lifecycle_of_def split: if_splits)
      then show ?thesis
        using sys FR_Settle p FinalResponse_settle_lifecycle [of st outcome]
          FinalResponse_settle_loading [of st outcome]
        by (simp add: FinalResponse_inv_def FinalResponse_step_def)
    qed
  qed
qed

lemma FinalResponse_run_inv: "FinalResponse_inv (FinalResponse_run evs)"
proof -
  have "FinalResponse_inv s \<Longrightarrow> FinalResponse_inv (foldl FinalResponse_step s evs)" for s
    by (induction evs arbitrary: s) (simp_all add: FinalResponse_step_inv)
  moreover have "FinalResponse_inv (FinalResponse_init, 0)"
    by (simp add: FinalResponse_inv_def FinalResponse_init_def lifecycle_of_def)
  ultimately show ?thesis by (simp add: FinalResponse_run_def)
qed

lemma HealthCheck_step_inv:
  "HealthCheck_inv sys \<Longrightarrow> HealthCheck_inv (HealthCheck_step sys ev)"
proof -
  assume inv: "HealthCheck_inv sys"
  obtain st pending where sys: "sys = (st, pending)" by (cases sys)
  show ?thesis
  proof (cases ev)
    case HC_Refresh
    then show ?thesis using inv sys
      by (simp add: HealthCheck_inv_def HealthCheck_step_def checkHealth_begin_def)
  next
    case (HC_Settle outcome)
    then show ?thesis
      using inv sys checkHealth_settle_loading [of st outcome]
      by (auto simp: HealthCheck_inv_def HealthCheck_step_def split: if_splits)
  qed
qed

lemma HealthCheck_run_inv: "HealthCheck_inv (HealthCheck_run evs)"
proof -
  have "HealthCheck_inv s \<Longrightarrow> HealthCheck_inv (foldl HealthCheck_step s evs)" for s
    by (induction evs arbitrary: s) (simp_all add: HealthCheck_step_inv)
  moreover have "HealthCheck_inv (checkHealth_begin HealthCheck_init, 1)"
    by (simp add: HealthCheck_inv_def HealthCheck_init_def checkHealth_begin_def)
  ultimately show ?thesis by (simp add: HealthCheck_run_def)
qed

lemma trim_zoo: "trim (js ''  zoo  '') = js ''zoo''"
  by (simp add: trim_def js_def is_space_def WhiteSpace_def LineTerminator_def)

lemma trim_notes: "trim (js '' notes '') = js ''notes''"
  by (simp add: trim_def js_def is_space_def WhiteSpace_def LineTerminator_def)

lemma decimal_503: "decimal 503 = js ''503''"
  by code_simp

lemma run_zoo:
  "fst (AdditionalInfo_run [AI_Change (js ''zoo''), AI_Submit, AI_Settle (Resolved (Some zoo_info))])
    = \<lparr>ai_query = js ''zoo'', ai_result = Some zoo_info, ai_loading = False, ai_error = None\<rparr>"
  by code_simp

section \<open>The sanitization pass\<close>

text \<open>
  C1. For every input string, \<open>cleanResponse\<close> removes every paired tag
  \<open><search_rag>...</search_rag>\<close>, then every paired tag
  \<open><duckduckgo_search>...</duckduckgo_search>\<close> (in any letter case, across newlines,
  up to the nearest closing tag), then every standalone opening or closing tag of the
  two names (attributes permitted), then collapses runs of blank lines, then trims:
  the regular-expression pipeline of the source computes the function \<open>sanitize\<close>,
  which is defined by direct recursion on the text. In particular the input
  \<open>before<search_rag>anything here\nmultiline</search_rag>after\<close> yields
  \<open>beforeafter\<close>.
\<close>

theorem cleanResponse_is_sanitize:
  "cleanResponse text = sanitize text
   \<and> cleanResponse
        (js ''before<search_rag>anything here\<newline>multiline</search_rag>after'')
       = js ''beforeafter''"
proof
  show "cleanResponse text = sanitize text"
    by (rule cleanResponse_sanitize)
  show "cleanResponse
        (js ''before<search_rag>anything here\<newline>multiline</search_rag>after'')
       = js ''beforeafter''"
    by code_simp
qed

theorem cleanResponse_is_sanitize_witness:
  "cleanResponse
     (js ''a<Search_RAG>x</search_rag>b <DuckDuckGo_search  q=1> c\<newline>\<newline>  \<newline>\<newline>d </search_rag> '')
   = js ''ab  c\<newline>\<newline>d''"
proof -
  have "sanitize
     (js ''a<Search_RAG>x</search_rag>b <DuckDuckGo_search  q=1> c\<newline>\<newline>  \<newline>\<newline>d </search_rag> '')
   = js ''ab  c\<newline>\<newline>d''"
    by code_simp
  then show ?thesis
    using cleanResponse_is_sanitize
      [of "js ''a<Search_RAG>x</search_rag>b <DuckDuckGo_search  q=1> c\<newline>\<newline>  \<newline>\<newline>d </search_rag> ''"]
    by simp
qed

text \<open>
  C6. On a text without tag markup \<open>cleanResponse\<close> only collapses blank lines and
  trims; and for every input the output holds no three consecutive newlines, so
  wherever the input has four or more of them, at most two are left.
\<close>

theorem cleanResponse_plain_text:
  "(\<not> has_tag_markup text \<longrightarrow>
      cleanResponse text = trim (replace_each blank_run_at (js ''\<newline>\<newline>'') text))
   \<and> \<not> (\<exists>pre post. cleanResponse text = pre @ js ''\<newline>\<newline>\<newline>'' @ post)"
  using cleanResponse_no_markup [of "text"] cleanResponse_no_triple [of "text"]
  by (simp add: replace_blank_lines)

theorem cleanResponse_plain_text_witness:
  "\<not> has_tag_markup (js ''  a < b\<newline>\<newline>\<newline>\<newline>c <b>bold</b>  '')
   \<and> cleanResponse (js ''  a < b\<newline>\<newline>\<newline>\<newline>c <b>bold</b>  '')
       = js ''a < b\<newline>\<newline>c <b>bold</b>''"
proof -
  have h: "\<not> has_tag_markup (js ''  a < b\<newline>\<newline>\<newline>\<newline>c <b>bold</b>  '')"
    by code_simp
  have v: "trim (replace_each blank_run_at (js ''\<newline>\<newline>'')
      (js ''  a < b\<newline>\<newline>\<newline>\<newline>c <b>bold</b>  '')) = js ''a < b\<newline>\<newline>c <b>bold</b>''"
    by code_simp
  from h v show ?thesis
    using cleanResponse_plain_text [of "js ''  a < b\<newline>\<newline>\<newline>\<newline>c <b>bold</b>  ''"]
    by simp
qed

section \<open>Properties of the components that call the API\<close>

text \<open>
  C2. In the submit handler of AdditionalInfo a response whose \<open>info\<close> is the empty
  string is treated exactly like a response without \<open>info\<close>: the error is set to
  "Received empty response from server. Please try again." and no result is stored.
\<close>

theorem empty_info_is_empty_response:
  "AdditionalInfo_settle st (Resolved (Some (d\<lparr>gi_info := Some (js '''')\<rparr>)))
     = AdditionalInfo_settle st (Resolved (Some (d\<lparr>gi_info := None\<rparr>)))
   \<and> ai_error (fst (AdditionalInfo_settle st (Resolved (Some (d\<lparr>gi_info := Some (js '''')\<rparr>)))))
     = Some (js ''Received empty response from server. Please try again.'')
   \<and> ai_result (fst (AdditionalInfo_settle st (Resolved (Some (d\<lparr>gi_info := Some (js '''')\<rparr>)))))
     = ai_result st"
  by (simp add: AdditionalInfo_settle_def AdditionalInfo_try_def AdditionalInfo_finally_def
      truthy_def js_def)

theorem empty_info_is_empty_response_witness:
  "AdditionalInfo_settle AdditionalInfo_loading (Resolved (Some empty_info))
     = (\<lparr>ai_query = js ''q'', ai_result = None, ai_loading = False,
         ai_error = Some (js ''Received empty response from server. Please try again.'')\<rparr>,
        None)
   \<and> AdditionalInfo_settle AdditionalInfo_loading
        (Resolved (Some (empty_info\<lparr>gi_info := None\<rparr>)))
     = (\<lparr>ai_query = js ''q'', ai_result = None, ai_loading = False,
         ai_error = Some (js ''Received empty response from server. Please try again.'')\<rparr>,
        None)"
proof -
  have z: "empty_info\<lparr>gi_info := Some (js '''')\<rparr> = empty_info"
    by (simp add: empty_info_def)
  have n: "AdditionalInfo_settle AdditionalInfo_loading
        (Resolved (Some (empty_info\<lparr>gi_info := None\<rparr>)))
     = (\<lparr>ai_query = js ''q'', ai_result = None, ai_loading = False,
         ai_error = Some (js ''Received empty response from server. Please try again.'')\<rparr>,
        None)"
    by (simp add: AdditionalInfo_settle_def AdditionalInfo_try_def AdditionalInfo_finally_def
        AdditionalInfo_loading_def empty_info_def)
  show ?thesis
    using empty_info_is_empty_response [of AdditionalInfo_loading empty_info] z n by simp
qed

text \<open>
  C3. The two components derive the message of a failed request by different
  chains. AdditionalInfo: when a response was received, the body's \<open>detail\<close>, else
  the body's \<open>message\<close>, else "Server error: status statusText"; when the request was
  made and no response was received, "No response from server. Please check if the API
  server is running."; otherwise the error's own message, else "Failed to gather
  information". FinalResponse: the body's \<open>detail\<close>, else the error's own message, else
  "Failed to generate response"; so after a network failure without a response it shows
  the error's own message.
\<close>

theorem error_message_chains:
  "ai_error (fst (AdditionalInfo_settle s1 (Rejected (Some err))))
     = Some (AdditionalInfo_errorMessage err)
   \<and> fr_error (fst (FinalResponse_settle s2 (Rejected (Some err))))
     = Some (FinalResponse_errorMessage err)
   \<and> (err_response err = Some r \<and> data_detail r = Some d \<and> \<not> falsy (Some d) \<longrightarrow>
        AdditionalInfo_errorMessage err = d)
   \<and> (err_response err = Some r \<and> falsy (data_detail r) \<and> data_message r = Some m
        \<and> \<not> falsy (Some m) \<longrightarrow>
        AdditionalInfo_errorMessage err = m)
   \<and> (err_response err = Some r \<and> falsy (data_detail r) \<and> falsy (data_message r) \<longrightarrow>
        AdditionalInfo_errorMessage err =
          js ''Server error: '' @ decimal (response_status r) @ js '' '' @ response_statusText r)
   \<and> (err_response err = None \<and> err_request err \<longrightarrow>
        AdditionalInfo_errorMessage err =
          js ''No response from server. Please check if the API server is running.'')
   \<and> (err_response err = None \<and> \<not> err_request err \<and> err_message err = Some m
        \<and> \<not> falsy (Some m) \<longrightarrow>
        AdditionalInfo_errorMessage err = m)
   \<and> (err_response err = None \<and> \<not> err_request err \<and> falsy (err_message err) \<longrightarrow>
        AdditionalInfo_errorMessage err = js ''Failed to gather information'')
   \<and> (response_detail err = Some d \<and> \<not> falsy (Some d) \<longrightarrow>
        FinalResponse_errorMessage err = d)
   \<and> (falsy (response_detail err) \<and> err_message err = Some m \<and> \<not> falsy (Some m) \<longrightarrow>
        FinalResponse_errorMessage err = m)
   \<and> (falsy (response_detail err) \<and> falsy (err_message err) \<longrightarrow>
        FinalResponse_errorMessage err = js ''Failed to generate response'')
   \<and> (err_response err = None \<longrightarrow> falsy (response_detail err))"
  using AdditionalInfo_errorMessage_cases [of err r d m]
    FinalResponse_errorMessage_cases [of err d m]
  by (simp add: AdditionalInfo_settle_Rejected FinalResponse_settle_Rejected)

theorem error_message_chains_witness:
  "err_response network_error = None \<and> err_request network_error
   \<and> err_message network_error = Some (js ''Network Error'')
   \<and> \<not> falsy (Some (js ''Network Error''))
   \<and> AdditionalInfo_errorMessage network_error
       = js ''No response from server. Please check if the API server is running.''
   \<and> FinalResponse_errorMessage network_error = js ''Network Error''
   \<and> AdditionalInfo_errorMessage unavailable_error = js ''Server error: 503 Service Unavailable''
   \<and> FinalResponse_errorMessage unavailable_error = js ''Request failed with status code 503''"
proof -
  have n: "err_response network_error = None \<and> err_request network_error
      \<and> err_message network_error = Some (js ''Network Error'')"
    by (simp add: network_error_def)
  have f: "\<not> falsy (Some (js ''Network Error''))"
    by (simp add: falsy_def js_def)
  have u: "err_response unavailable_error = Some unavailable \<and> falsy (data_detail unavailable)
      \<and> falsy (data_message unavailable)
      \<and> falsy (response_detail unavailable_error)
      \<and> err_message unavailable_error = Some (js ''Request failed with status code 503'')
      \<and> \<not> falsy (Some (js ''Request failed with status code 503''))"
    by (simp add: unavailable_error_def unavailable_def falsy_def data_detail_def
        data_message_def response_detail_def js_def)
  have s: "js ''Server error: '' @ decimal (response_status unavailable) @ js '' ''
        @ response_statusText unavailable
      = js ''Server error: 503 Service Unavailable''"
    by (simp add: unavailable_def decimal_503) (simp add: js_def)
  show ?thesis
    using n f u s
      error_message_chains [of AdditionalInfo_init network_error FinalResponse_init
        unavailable "js ''Network Error''" "js ''Network Error''"]
      error_message_chains [of AdditionalInfo_init unavailable_error FinalResponse_init
        unavailable "js ''Request failed with status code 503''"
        "js ''Request failed with status code 503''"]
    by simp
qed

text \<open>
  The chains give different messages: after a network failure without a response
  AdditionalInfo shows the no-response message, FinalResponse shows "Network Error".
\<close>

theorem FinalResponse_no_response_counterexample:
  "ai_error (fst (AdditionalInfo_settle AdditionalInfo_init (Rejected (Some network_error))))
     = Some (js ''No response from server. Please check if the API server is running.'')
   \<and> fr_error (fst (FinalResponse_settle FinalResponse_init (Rejected (Some network_error))))
     = Some (js ''Network Error'')
   \<and> js ''Network Error''
     \<noteq> js ''No response from server. Please check if the API server is running.''"
  by (simp add: AdditionalInfo_settle_def AdditionalInfo_try_def AdditionalInfo_catch_def
      AdditionalInfo_finally_def AdditionalInfo_errorMessage_def FinalResponse_settle_def
      FinalResponse_try_def FinalResponse_catch_def FinalResponse_finally_def
      FinalResponse_errorMessage_def network_error_def response_detail_def js_or_def
      or_default_def truthy_def js_def)

text \<open>
  C5. For every FinalResponse submission that passes validation, the handler hands the
  service a payload whose \<open>user_query\<close> is \<open>undefined\<close> when the original-query field
  is the empty string and the field's value otherwise; the request body that goes out
  then has no \<open>user_query\<close> key when the field is blank, has the key with the field's
  value when it is not, and never has it with the empty string.
\<close>

theorem user_query_omitted_when_blank:
  assumes "truthy (trim (fr_content st))"
  shows
  "FinalResponse_handleSubmit generateFinalResponse st =
     FinalResponse_settle (fst (FinalResponse_submit st))
       (generateFinalResponse
          \<lparr>content = fr_content st,
           user_query = (if fr_userQuery st = js '''' then None else Some (fr_userQuery st))\<rparr>)
   \<and> FinalResponse_handleSubmit (apiService_generateFinalResponse post) st =
     FinalResponse_settle (fst (FinalResponse_submit st))
       (post (if fr_userQuery st = js '''' then [(''content'', fr_content st)]
              else [(''content'', fr_content st), (''user_query'', fr_userQuery st)]))
   \<and> (fr_userQuery st = js '''' \<longrightarrow>
        ''user_query''
          \<notin> fst ` set (final_request_body
                \<lparr>content = fr_content st,
                 user_query = (if fr_userQuery st = js '''' then None
                               else Some (fr_userQuery st))\<rparr>))
   \<and> (fr_userQuery st \<noteq> js '''' \<longrightarrow>
        map_of (final_request_body
                \<lparr>content = fr_content st,
                 user_query = (if fr_userQuery st = js '''' then None
                               else Some (fr_userQuery st))\<rparr>) ''user_query''
          = Some (fr_userQuery st))
   \<and> map_of (final_request_body
                \<lparr>content = fr_content st,
                 user_query = (if fr_userQuery st = js '''' then None
                               else Some (fr_userQuery st))\<rparr>) ''user_query''
        \<noteq> Some (js '''')"
  using assms
  by (simp add: FinalResponse_handleSubmit_def FinalResponse_submit_def
      apiService_generateFinalResponse_def final_request_body_def truthy_def js_def)

theorem user_query_omitted_when_blank_witness:
  "truthy (trim (fr_content FinalResponse_padded))
   \<and> FinalResponse_handleSubmit (apiService_generateFinalResponse echo) FinalResponse_padded
       = (\<lparr>fr_content = js '' notes '', fr_userQuery = js '''',
           fr_result = Some \<lparr>fin_success = Some True, fin_response = None,
                         fin_message = Some (js ''content;'')\<rparr>,
           fr_loading = False, fr_error = None\<rparr>, None)
   \<and> FinalResponse_handleSubmit (apiService_generateFinalResponse echo)
         (FinalResponse_padded\<lparr>fr_userQuery := js ''Las Vegas''\<rparr>)
       = (\<lparr>fr_content = js '' notes '', fr_userQuery = js ''Las Vegas'',
           fr_result = Some \<lparr>fin_success = Some True, fin_response = Some (js ''Las Vegas''),
                         fin_message = Some (js ''content;user_query;'')\<rparr>,
           fr_loading = False, fr_error = None\<rparr>, None)"
proof -
  have b: "truthy (trim (fr_content FinalResponse_padded))"
    by (simp add: FinalResponse_padded_def trim_notes) (simp add: truthy_def js_def)
  have b2: "truthy (trim (fr_content (FinalResponse_padded\<lparr>fr_userQuery := js ''Las Vegas''\<rparr>)))"
    using b by simp
  have n: "js ''Las Vegas'' \<noteq> js ''''"
    by (simp add: js_def)
  have t: "trim (js '' notes '') \<noteq> []"
    by (simp add: trim_notes) (simp add: js_def)
  have 1: "FinalResponse_handleSubmit (apiService_generateFinalResponse echo) FinalResponse_padded
       = (\<lparr>fr_content = js '' notes '', fr_userQuery = js '''',
           fr_result = Some \<lparr>fin_success = Some True, fin_response = None,
                         fin_message = Some (js ''content;'')\<rparr>,
           fr_loading = False, fr_error = None\<rparr>, None)"
    using user_query_omitted_when_blank
      [OF b, of "\<lambda>req. Rejected None" echo, THEN conjunct2, THEN conjunct1] t
    by (simp add: FinalResponse_padded_def FinalResponse_submit_def FinalResponse_settle_def
        FinalResponse_try_def FinalResponse_finally_def echo_def truthy_def)
  have 2: "FinalResponse_handleSubmit (apiService_generateFinalResponse echo)
         (FinalResponse_padded\<lparr>fr_userQuery := js ''Las Vegas''\<rparr>)
       = (\<lparr>fr_content = js '' notes '', fr_userQuery = js ''Las Vegas'',
           fr_result = Some \<lparr>fin_success = Some True, fin_response = Some (js ''Las Vegas''),
                         fin_message = Some (js ''content;user_query;'')\<rparr>,
           fr_loading = False, fr_error = None\<rparr>, None)"
    using user_query_omitted_when_blank
      [OF b2, of "\<lambda>req. Rejected None" echo, THEN conjunct2, THEN conjunct1] t n
    by (simp add: FinalResponse_padded_def FinalResponse_submit_def FinalResponse_settle_def
        FinalResponse_try_def FinalResponse_finally_def echo_def truthy_def)
  from b 1 2 show ?thesis by blast
qed

text \<open>
  C8. Whatever way a request of AdditionalInfo, FinalResponse or HealthCheck settles
  (a result, an empty result, an error with or without a response, a value on which the
  \<open>catch\<close> block itself throws), the component's \<open>loading\<close> flag is cleared at the
  end; so it is after every handler run that issued a request.
\<close>

theorem loading_cleared_on_every_path:
  "\<not> ai_loading (fst (AdditionalInfo_settle s1 o1))
   \<and> \<not> fr_loading (fst (FinalResponse_settle s2 o2))
   \<and> \<not> hc_loading (fst (checkHealth_settle s3 o3))
   \<and> (truthy (trim (ai_query s1)) \<longrightarrow> \<not> ai_loading (fst (AdditionalInfo_handleSubmit api1 s1)))
   \<and> (truthy (trim (fr_content s2)) \<longrightarrow> \<not> fr_loading (fst (FinalResponse_handleSubmit api2 s2)))
   \<and> \<not> hc_loading (fst (checkHealth o3 s3))"
  by (simp add: AdditionalInfo_settle_loading FinalResponse_settle_loading
      checkHealth_settle_loading AdditionalInfo_handleSubmit_def AdditionalInfo_submit_def
      FinalResponse_handleSubmit_def FinalResponse_submit_def checkHealth_def)

theorem loading_cleared_on_every_path_witness:
  "truthy (trim (ai_query AdditionalInfo_loading))
   \<and> \<not> ai_loading (fst (AdditionalInfo_settle AdditionalInfo_loading (Rejected None)))
   \<and> snd (AdditionalInfo_settle AdditionalInfo_loading (Rejected None)) = Some TypeError
   \<and> \<not> ai_loading (fst (AdditionalInfo_handleSubmit (\<lambda>req. Rejected (Some network_error))
          AdditionalInfo_loading))
   \<and> \<not> hc_loading (fst (checkHealth (Resolved (Some healthy)) HealthCheck_init))"
proof -
  have t: "truthy (trim (ai_query AdditionalInfo_loading))"
    by (simp add: AdditionalInfo_loading_def truthy_def trim_def js_def is_space_def
        WhiteSpace_def LineTerminator_def)
  have e: "snd (AdditionalInfo_settle AdditionalInfo_loading (Rejected None)) = Some TypeError"
    by (simp add: AdditionalInfo_settle_def AdditionalInfo_try_def AdditionalInfo_catch_def)
  show ?thesis
    using t e
      loading_cleared_on_every_path [of AdditionalInfo_loading "Rejected None"
        FinalResponse_init "Rejected None" HealthCheck_init "Resolved (Some healthy)"
        "\<lambda>req. Rejected (Some network_error)" "\<lambda>req. Rejected None"]
    by simp
qed

text \<open>
  C9. In every state that AdditionalInfo or FinalResponse reaches through its
  rendered controls, the state variables are in exactly one of the states idle, loading,
  success with a result, error with a message (never a result together with an error,
  never loading together with either), and every submission that passes validation
  starts by resetting result and error. HealthCheck resets only the error when a check
  starts and keeps the health record of the last successful check: there loading and
  error exclude each other, the health record may stay beside either.
\<close>

theorem form_lifecycle_exclusive:
  "lifecycle_of (ai_loading (fst (AdditionalInfo_run evs1)))
      (ai_result (fst (AdditionalInfo_run evs1)) \<noteq> None)
      (ai_error (fst (AdditionalInfo_run evs1)) \<noteq> None) \<noteq> None
   \<and> lifecycle_of (fr_loading (fst (FinalResponse_run evs2)))
      (fr_result (fst (FinalResponse_run evs2)) \<noteq> None)
      (fr_error (fst (FinalResponse_run evs2)) \<noteq> None) \<noteq> None
   \<and> \<not> (hc_loading (fst (HealthCheck_run evs3)) \<and> hc_error (fst (HealthCheck_run evs3)) \<noteq> None)
   \<and> (truthy (trim (ai_query s1)) \<longrightarrow>
        lifecycle_of (ai_loading (fst (AdditionalInfo_submit s1)))
          (ai_result (fst (AdditionalInfo_submit s1)) \<noteq> None)
          (ai_error (fst (AdditionalInfo_submit s1)) \<noteq> None) = Some Loading)
   \<and> (truthy (trim (fr_content s2)) \<longrightarrow>
        lifecycle_of (fr_loading (fst (FinalResponse_submit s2)))
          (fr_result (fst (FinalResponse_submit s2)) \<noteq> None)
          (fr_error (fst (FinalResponse_submit s2)) \<noteq> None) = Some Loading)
   \<and> hc_loading (checkHealth_begin s3) \<and> hc_error (checkHealth_begin s3) = None
   \<and> hc_health (checkHealth_begin s3) = hc_health s3"
proof -
  have 1: "lifecycle_of (ai_loading (fst (AdditionalInfo_run evs1)))
      (ai_result (fst (AdditionalInfo_run evs1)) \<noteq> None)
      (ai_error (fst (AdditionalInfo_run evs1)) \<noteq> None) \<noteq> None"
    using AdditionalInfo_run_inv [of evs1]
    by (cases "AdditionalInfo_run evs1") (simp add: AdditionalInfo_inv_def)
  have 2: "lifecycle_of (fr_loading (fst (FinalResponse_run evs2)))
      (fr_result (fst (FinalResponse_run evs2)) \<noteq> None)
      (fr_error (fst (FinalResponse_run evs2)) \<noteq> None) \<noteq> None"
    using FinalResponse_run_inv [of evs2]
    by (cases "FinalResponse_run evs2") (simp add: FinalResponse_inv_def)
  have 3: "\<not> (hc_loading (fst (HealthCheck_run evs3)) \<and> hc_error (fst (HealthCheck_run evs3)) \<noteq> None)"
    using HealthCheck_run_inv [of evs3]
    by (cases "HealthCheck_run evs3") (simp add: HealthCheck_inv_def)
  have 4: "truthy (trim (ai_query s1)) \<longrightarrow>
        lifecycle_of (ai_loading (fst (AdditionalInfo_submit s1)))
          (ai_result (fst (AdditionalInfo_submit s1)) \<noteq> None)
          (ai_error (fst (AdditionalInfo_submit s1)) \<noteq> None) = Some Loading"
    by (simp add: AdditionalInfo_submit_def lifecycle_of_def)
  have 5: "truthy (trim (fr_content s2)) \<longrightarrow>
        lifecycle_of (fr_loading (fst (FinalResponse_submit s2)))
          (fr_result (fst (FinalResponse_submit s2)) \<noteq> None)
          (fr_error (fst (FinalResponse_submit s2)) \<noteq> None) = Some Loading"
    by (simp add: FinalResponse_submit_def lifecycle_of_def)
  have 6: "hc_loading (checkHealth_begin s3) \<and> hc_error (checkHealth_begin s3) = None
      \<and> hc_health (checkHealth_begin s3) = hc_health s3"
    by (simp add: checkHealth_begin_def)
  from 1 2 3 4 5 6 show ?thesis by blast
qed

theorem form_lifecycle_exclusive_witness:
  "truthy (trim (ai_query AdditionalInfo_padded))
   \<and> truthy (trim (fr_content FinalResponse_padded))
   \<and> lifecycle_of (ai_loading (fst (AdditionalInfo_submit AdditionalInfo_padded)))
        (ai_result (fst (AdditionalInfo_submit AdditionalInfo_padded)) \<noteq> None)
        (ai_error (fst (AdditionalInfo_submit AdditionalInfo_padded)) \<noteq> None) = Some Loading
   \<and> lifecycle_of (fr_loading (fst (FinalResponse_submit FinalResponse_padded)))
        (fr_result (fst (FinalResponse_submit FinalResponse_padded)) \<noteq> None)
        (fr_error (fst (FinalResponse_submit FinalResponse_padded)) \<noteq> None) = Some Loading
   \<and> fst (AdditionalInfo_run
           [AI_Change (js ''zoo''), AI_Submit, AI_Settle (Resolved (Some zoo_info))])
       = \<lparr>ai_query = js ''zoo'', ai_result = Some zoo_info, ai_loading = False,
          ai_error = None\<rparr>
   \<and> lifecycle_of
        (ai_loading (fst (AdditionalInfo_run
           [AI_Change (js ''zoo''), AI_Submit, AI_Settle (Resolved (Some zoo_info))])))
        (ai_result (fst (AdditionalInfo_run
           [AI_Change (js ''zoo''), AI_Submit, AI_Settle (Resolved (Some zoo_info))])) \<noteq> None)
        (ai_error (fst (AdditionalInfo_run
           [AI_Change (js ''zoo''), AI_Submit, AI_Settle (Resolved (Some zoo_info))])) \<noteq> None)
       \<noteq> None"
proof -
  have a: "truthy (trim (ai_query AdditionalInfo_padded))"
    by (simp add: AdditionalInfo_padded_def trim_zoo) (simp add: truthy_def js_def)
  have b: "truthy (trim (fr_content FinalResponse_padded))"
    by (simp add: FinalResponse_padded_def trim_notes) (simp add: truthy_def js_def)
  show ?thesis
    using a b run_zoo
      form_lifecycle_exclusive [of
        "[AI_Change (js ''zoo''), AI_Submit, AI_Settle (Resolved (Some zoo_info))]"
        "[]" "[]" AdditionalInfo_padded FinalResponse_padded HealthCheck_init]
    by simp
qed

text \<open>
  HealthCheck is in none of the four states at times: after a successful check a
  refresh leaves the health record in place while loading, and a failed refresh leaves
  it beside the error message.
\<close>

theorem HealthCheck_lifecycle_counterexample:
  "lifecycle_of
     (hc_loading (fst (HealthCheck_run [HC_Settle (Resolved (Some healthy)), HC_Refresh])))
     (hc_health (fst (HealthCheck_run [HC_Settle (Resolved (Some healthy)), HC_Refresh])) \<noteq> None)
     (hc_error (fst (HealthCheck_run [HC_Settle (Resolved (Some healthy)), HC_Refresh])) \<noteq> None)
     = None
   \<and> hc_loading (fst (HealthCheck_run [HC_Settle (Resolved (Some healthy)), HC_Refresh]))
   \<and> hc_health (fst (HealthCheck_run [HC_Settle (Resolved (Some healthy)), HC_Refresh]))
       = Some healthy
   \<and> hc_health (fst (HealthCheck_run [HC_Settle (Resolved (Some healthy)), HC_Refresh,
        HC_Settle (Rejected (Some network_error))])) = Some healthy
   \<and> hc_error (fst (HealthCheck_run [HC_Settle (Resolved (Some healthy)), HC_Refresh,
        HC_Settle (Rejected (Some network_error))])) = Some (js ''Network Error'')"
  by (simp add: HealthCheck_run_def HealthCheck_step_def HealthCheck_init_def
      checkHealth_begin_def checkHealth_settle_def checkHealth_try_def checkHealth_catch_def
      checkHealth_finally_def checkHealth_errorMessage_def network_error_def
      response_detail_def js_or_def or_default_def truthy_def lifecycle_of_def)
     (simp add: js_def)

text \<open>
  C10. A submission that passes validation sends the field as typed, not the trimmed
  text the validation looked at: AdditionalInfo sends the query with its surrounding
  white space, FinalResponse the content.
\<close>

theorem request_carries_raw_value:
  "(truthy (trim (ai_query s1)) \<longrightarrow>
      snd (AdditionalInfo_submit s1) = Some \<lparr>gr_query = ai_query s1\<rparr>
      \<and> AdditionalInfo_handleSubmit api1 s1 =
          AdditionalInfo_settle (fst (AdditionalInfo_submit s1))
            (api1 \<lparr>gr_query = ai_query s1\<rparr>))
   \<and> (truthy (trim (fr_content s2)) \<longrightarrow>
      map_option content (snd (FinalResponse_submit s2)) = Some (fr_content s2)
      \<and> (\<exists>q. FinalResponse_handleSubmit api2 s2 =
            FinalResponse_settle (fst (FinalResponse_submit s2))
              (api2 \<lparr>content = fr_content s2, user_query = q\<rparr>)))"
  by (auto simp: AdditionalInfo_submit_def FinalResponse_submit_def
      AdditionalInfo_handleSubmit_def FinalResponse_handleSubmit_def)

theorem request_carries_raw_value_witness:
  "truthy (trim (ai_query AdditionalInfo_padded))
   \<and> truthy (trim (fr_content FinalResponse_padded))
   \<and> snd (AdditionalInfo_submit AdditionalInfo_padded) = Some \<lparr>gr_query = js ''  zoo  ''\<rparr>
   \<and> map_option content (snd (FinalResponse_submit FinalResponse_padded)) = Some (js '' notes '')
   \<and> js ''  zoo  '' \<noteq> trim (js ''  zoo  '')"
proof -
  have a: "truthy (trim (ai_query AdditionalInfo_padded))"
    by (simp add: AdditionalInfo_padded_def trim_zoo) (simp add: truthy_def js_def)
  have b: "truthy (trim (fr_content FinalResponse_padded))"
    by (simp add: FinalResponse_padded_def trim_notes) (simp add: truthy_def js_def)
  have c: "js ''  zoo  '' \<noteq> trim (js ''  zoo  '')"
    by (simp add: trim_zoo) (simp add: js_def)
  show ?thesis
    using a b c
      request_carries_raw_value [of AdditionalInfo_padded "\<lambda>req. Rejected None"
        FinalResponse_padded "\<lambda>req. Rejected None"]
    by (simp add: AdditionalInfo_padded_def FinalResponse_padded_def)
qed

section \<open>Properties of ChatInput\<close>

lemma trim_hello: "trim (js ''  hello  '') = js ''hello''"
  by (simp add: trim_def js_def is_space_def WhiteSpace_def LineTerminator_def)




text \<open>
  C7. While the \<open>disabled\<close> flag is true, neither a click on the submit button nor a
  key press in the text area (Enter without Shift included) invokes the callback or
  changes the field, whatever the message text is.
\<close>

theorem ChatInput_disabled_blocks_submit:
  "ev = Click \<or> ev = KeyDown key shiftKey \<Longrightarrow>
   ChatInput_dispatch True st ev = (st, [])"
  by (auto simp: ChatInput_dispatch_def Button_disabled_def Textarea_disabled_def)

theorem ChatInput_disabled_blocks_submit_witness:
  "trim (message \<lparr>message = js ''  hello  ''\<rparr>) \<noteq> []
   \<and> ChatInput_dispatch True \<lparr>message = js ''  hello  ''\<rparr> Click
       = (\<lparr>message = js ''  hello  ''\<rparr>, [])
   \<and> ChatInput_dispatch True \<lparr>message = js ''  hello  ''\<rparr> (KeyDown (js ''Enter'') False)
       = (\<lparr>message = js ''  hello  ''\<rparr>, [])
   \<and> ChatInput_dispatch False \<lparr>message = js ''  hello  ''\<rparr> (KeyDown (js ''Enter'') False)
       = (\<lparr>message = []\<rparr>, [js ''hello''])"
proof -
  have h: "trim (message \<lparr>message = js ''  hello  ''\<rparr>) \<noteq> []"
    by (simp add: trim_hello) (simp add: js_def)
  have 1: "ChatInput_dispatch True \<lparr>message = js ''  hello  ''\<rparr> Click
       = (\<lparr>message = js ''  hello  ''\<rparr>, [])"
    using ChatInput_disabled_blocks_submit [of Click] by simp
  have 2: "ChatInput_dispatch True \<lparr>message = js ''  hello  ''\<rparr> (KeyDown (js ''Enter'') False)
       = (\<lparr>message = js ''  hello  ''\<rparr>, [])"
    using ChatInput_disabled_blocks_submit [of "KeyDown (js ''Enter'') False" "js ''Enter''" False]
    by simp
  have 3: "ChatInput_dispatch False \<lparr>message = js ''  hello  ''\<rparr> (KeyDown (js ''Enter'') False)
       = (\<lparr>message = []\<rparr>, [js ''hello''])"
    by (simp add: ChatInput_dispatch_def Textarea_disabled_def ChatInput_handleKeyDown_def
        ChatInput_handleSubmit_def truthy_def trim_hello)
      (simp add: js_def)
  from h 1 2 3 show ?thesis by blast
qed

end
